theory Spec2Isabelle
  imports Complex_Main
begin

section \<open>Ballistic flight with quadratic drag: the model of lab1\_simulation.py\<close>

text \<open>
  The program integrates the flight of a body under gravity and quadratic air drag with
  a fixed-step Euler loop (\<^verbatim>\<open>BallisticApp.run_simulation\<close>), stores one
  \<^verbatim>\<open>SimulationResult\<close> per run and renders the stored results as a table.

  The program is modelled twice, with two readings of Python's \<^verbatim>\<open>float\<close>.

  \<^item> In the exact model a \<^verbatim>\<open>float\<close> is a \<^typ>\<open>real\<close> and every arithmetic operation of
    the source is the exact operation on real numbers. The division by a divisor that is
    exactly zero is a branch of the model: Python raises \<^verbatim>\<open>ZeroDivisionError\<close> there.

  \<^item> In the model with special values a \<^verbatim>\<open>float\<close> is a finite real number, one of the two
    infinities or NaN. The operations follow IEEE 754 and Python on the special values
    (comparisons with NaN are false, \<^verbatim>\<open>inf - inf\<close>, \<^verbatim>\<open>0 * inf\<close> and \<^verbatim>\<open>inf / inf\<close> are NaN,
    \<^verbatim>\<open>math.cos\<close> and \<^verbatim>\<open>math.sin\<close> of an infinity and \<^verbatim>\<open>math.sqrt\<close> of a negative number
    raise \<^verbatim>\<open>ValueError\<close>) and are exact on finite numbers. The text fields of the form
    accept \<^verbatim>\<open>inf\<close> and \<^verbatim>\<open>nan\<close>, so these values are inputs of the program.

  On finite input the two models agree, which is proved below. Rounding, and with it
  overflow and underflow of finite numbers, is outside both models.
\<close>

subsection \<open>Data\<close>

datatype py_error = ZeroDivisionError | ValueError

text \<open>The dataclass \<^verbatim>\<open>SimulationResult\<close>.\<close>

record SimulationResult =
  dt :: real
  trajectory :: "(real \<times> real) list"
  f_range :: real
  max_height :: real
  final_speed :: real

text \<open>
  The dictionary \<^verbatim>\<open>params\<close> that \<^verbatim>\<open>get_parameters\<close> builds, one field per key.
\<close>

record params =
  p_v0 :: real
  p_angle :: real
  p_m :: real
  p_rho :: real
  p_C :: real
  p_S :: real
  p_dt :: real

text \<open>
  The seven entry widgets. Each field holds what \<^verbatim>\<open>float(entry.get())\<close> yields for the
  text of the widget: \<open>Some r\<close> for the number parsed, \<open>None\<close> when \<^verbatim>\<open>float\<close> raises
  \<^verbatim>\<open>ValueError\<close>.
\<close>

record entries =
  e_v0 :: "real option"
  e_angle :: "real option"
  e_m :: "real option"
  e_rho :: "real option"
  e_C :: "real option"
  e_S :: "real option"
  e_dt :: "real option"

text \<open>
  The \<^verbatim>\<open>ValueError\<close>s that \<^verbatim>\<open>get_parameters\<close> catches: the one of \<^verbatim>\<open>float\<close> and the
  three it raises itself. Each is shown in an error dialog.
\<close>

datatype input_error = NotANumber | StepNotPositive | SpeedNotPositive | AngleOutOfRange

text \<open>The local variables of the integration loop.\<close>

record sim_state =
  s_x :: real
  s_y :: real
  s_vx :: real
  s_vy :: real
  s_trajectory :: "(real \<times> real) list"
  s_times :: "real list"
  s_t :: real
  s_max_height :: real

text \<open>The part of the application object that the simulation reads and writes.\<close>

record app =
  results :: "SimulationResult list"

text \<open>One row of the results table, before the numbers are formatted.\<close>

record table_row =
  row_dt :: real
  row_range :: real
  row_max_height :: real
  row_final_speed :: real
  row_flight_time :: real

text \<open>What a press of the run button ends in.\<close>

datatype outcome =
  Rejected input_error
| Declined
| Crashed py_error
| Stored

subsection \<open>Parameter acquisition\<close>

text \<open>\<^verbatim>\<open>self.g\<close>, set once in the constructor.\<close>

definition self_g :: real where
  "self_g = 981 / 100"

text \<open>
  \<^verbatim>\<open>get_parameters\<close>: the seven conversions in the order of the source, then the three
  checks. \<open>Inl err\<close> stands for the error dialog followed by \<^verbatim>\<open>return None\<close>.
\<close>

definition get_parameters :: "entries \<Rightarrow> input_error + params" where
  "get_parameters e =
     (case e_v0 e of None \<Rightarrow> Inl NotANumber | Some v0 \<Rightarrow>
      case e_angle e of None \<Rightarrow> Inl NotANumber | Some angle \<Rightarrow>
      case e_m e of None \<Rightarrow> Inl NotANumber | Some m \<Rightarrow>
      case e_rho e of None \<Rightarrow> Inl NotANumber | Some rho \<Rightarrow>
      case e_C e of None \<Rightarrow> Inl NotANumber | Some C \<Rightarrow>
      case e_S e of None \<Rightarrow> Inl NotANumber | Some S \<Rightarrow>
      case e_dt e of None \<Rightarrow> Inl NotANumber | Some d \<Rightarrow>
        if d \<le> 0 then Inl StepNotPositive
        else if v0 \<le> 0 then Inl SpeedNotPositive
        else if angle \<le> 0 \<or> angle \<ge> 90 then Inl AngleOutOfRange
        else Inr \<lparr>p_v0 = v0, p_angle = angle, p_m = m, p_rho = rho,
                  p_C = C, p_S = S, p_dt = d\<rparr>)"

subsection \<open>The integration loop\<close>

definition calculate_drag_force :: "real \<Rightarrow> params \<Rightarrow> real" where
  "calculate_drag_force v p = 0.5 * p_rho p * p_C p * p_S p * v ^ 2"

text \<open>\<^verbatim>\<open>math.radians\<close>.\<close>

definition radians :: "real \<Rightarrow> real" where
  "radians a = a * (pi / 180)"

text \<open>
  The two conditional expressions that compute \<^verbatim>\<open>ax\<close> and \<^verbatim>\<open>ay\<close>. Both divide by
  \<^verbatim>\<open>params['m'] * v\<close> when \<^verbatim>\<open>v > 0\<close>; Python raises when that product is zero.
\<close>

definition acceleration :: "params \<Rightarrow> real \<Rightarrow> real \<Rightarrow> py_error + real \<times> real" where
  "acceleration p vx vy =
     (let v = sqrt (vx ^ 2 + vy ^ 2);
          drag_force = calculate_drag_force v p
      in if v > 0 then
           (if p_m p * v = 0 then Inl ZeroDivisionError
            else Inr (- drag_force * vx / (p_m p * v),
                      - self_g - drag_force * vy / (p_m p * v)))
         else Inr (0, - self_g))"

text \<open>One pass through the body of the \<^verbatim>\<open>while\<close> loop.\<close>

definition euler_step :: "params \<Rightarrow> sim_state \<Rightarrow> py_error + sim_state" where
  "euler_step p s =
     (case acceleration p (s_vx s) (s_vy s) of
        Inl err \<Rightarrow> Inl err
      | Inr (ax, ay) \<Rightarrow>
          let vx' = s_vx s + ax * p_dt p;
              vy' = s_vy s + ay * p_dt p;
              x' = s_x s + vx' * p_dt p;
              y' = s_y s + vy' * p_dt p;
              t' = s_t s + p_dt p
          in Inr \<lparr>s_x = x', s_y = y', s_vx = vx', s_vy = vy',
                  s_trajectory = s_trajectory s @ [(x', y')],
                  s_times = s_times s @ [t'],
                  s_t = t',
                  s_max_height = (if y' > s_max_height s then y' else s_max_height s)\<rparr>)"

text \<open>
  The loop \<^verbatim>\<open>while y >= 0\<close>. The first argument bounds the number of passes through the
  body: \<open>None\<close> means that the bound was reached with the condition still true.
\<close>

fun euler_loop :: "nat \<Rightarrow> params \<Rightarrow> sim_state \<Rightarrow> (py_error + sim_state) option" where
  "euler_loop 0 p s = (if s_y s \<ge> 0 then None else Some (Inr s))"
| "euler_loop (Suc k) p s =
     (if s_y s \<ge> 0 then
        (case euler_step p s of
           Inl err \<Rightarrow> Some (Inl err)
         | Inr s' \<Rightarrow> euler_loop k p s')
      else Some (Inr s))"

text \<open>
  The loop variables after at most \<open>k\<close> passes: the state in which the loop stopped, or
  the state reached when the \<open>k\<close> passes are used up, or the error that a pass raised.
\<close>

fun euler_passes :: "nat \<Rightarrow> params \<Rightarrow> sim_state \<Rightarrow> py_error + sim_state" where
  "euler_passes 0 p s = Inr s"
| "euler_passes (Suc k) p s =
     (if s_y s \<ge> 0 then
        (case euler_step p s of
           Inl err \<Rightarrow> Inl err
         | Inr s' \<Rightarrow> euler_passes k p s')
      else Inr s)"

text \<open>The initial conditions.\<close>

definition initial_state :: "params \<Rightarrow> sim_state" where
  "initial_state p =
     (let angle_rad = radians (p_angle p)
      in \<lparr>s_x = 0, s_y = 0,
          s_vx = p_v0 p * cos angle_rad,
          s_vy = p_v0 p * sin angle_rad,
          s_trajectory = [(0, 0)],
          s_times = [0],
          s_t = 0,
          s_max_height = 0\<rparr>)"

definition simulate :: "nat \<Rightarrow> params \<Rightarrow> (py_error + sim_state) option" where
  "simulate n p = euler_loop n p (initial_state p)"

text \<open>The results computed after the loop and the object built from them.\<close>

definition make_result :: "params \<Rightarrow> sim_state \<Rightarrow> SimulationResult" where
  "make_result p s =
     \<lparr>dt = p_dt p,
      trajectory = s_trajectory s,
      f_range = s_x s,
      max_height = s_max_height s,
      final_speed = (if s_y s \<le> 0 then sqrt (s_vx s ^ 2 + s_vy s ^ 2) else 0)\<rparr>"

subsection \<open>The button handlers and the table\<close>

text \<open>
  The check for an earlier run with the same step. \<open>ask k\<close> is the user's answer to the
  \<open>k\<close>-th confirmation dialog of this call; the first refusal ends the handler.
\<close>

fun confirm_duplicates :: "real \<Rightarrow> SimulationResult list \<Rightarrow> (nat \<Rightarrow> bool) \<Rightarrow> nat \<Rightarrow> bool" where
  "confirm_duplicates d [] ask k = True"
| "confirm_duplicates d (r # rs) ask k =
     (if \<bar>dt r - d\<bar> < 1 / 10 ^ 10 then
        (if \<not> ask k then False else confirm_duplicates d rs ask (Suc k))
      else confirm_duplicates d rs ask k)"

text \<open>
  \<^verbatim>\<open>run_simulation\<close> as a function of the entries, the user's answers and the
  application state. It returns how the handler ended and the state it left.
\<close>

definition run_simulation ::
  "nat \<Rightarrow> (nat \<Rightarrow> bool) \<Rightarrow> entries \<Rightarrow> app \<Rightarrow> (outcome \<times> app) option" where
  "run_simulation n ask e a =
     (case get_parameters e of
        Inl err \<Rightarrow> Some (Rejected err, a)
      | Inr p \<Rightarrow>
          if \<not> confirm_duplicates (p_dt p) (results a) ask 0 then Some (Declined, a)
          else
            (case simulate n p of
               None \<Rightarrow> None
             | Some (Inl err) \<Rightarrow> Some (Crashed err, a)
             | Some (Inr s) \<Rightarrow>
                 Some (Stored, a\<lparr>results := results a @ [make_result p s]\<rparr>)))"

definition clear_results :: "bool \<Rightarrow> app \<Rightarrow> app" where
  "clear_results yes a = (if yes then a\<lparr>results := []\<rparr> else a)"

text \<open>\<^verbatim>\<open>update_table\<close>: one row per stored result, in the order of the list.\<close>

definition table_row_of :: "SimulationResult \<Rightarrow> table_row" where
  "table_row_of r =
     (let flight_time = real (length (trajectory r)) * dt r
      in \<lparr>row_dt = dt r, row_range = f_range r, row_max_height = max_height r,
          row_final_speed = final_speed r, row_flight_time = flight_time\<rparr>)"

definition update_table :: "app \<Rightarrow> table_row list" where
  "update_table a = map table_row_of (results a)"

text \<open>The states of the application: it starts with no results.\<close>

definition initial_app :: app where
  "initial_app = \<lparr>results = []\<rparr>"

inductive reachable :: "app \<Rightarrow> bool" where
  reach_init: "reachable initial_app"
| reach_run: "reachable a \<Longrightarrow> run_simulation n ask e a = Some (out, a') \<Longrightarrow> reachable a'"
| reach_clear: "reachable a \<Longrightarrow> reachable (clear_results yes a)"

subsection \<open>Invariants of the loop\<close>

text \<open>
  Three properties of the loop variables that hold before the first pass and after
  every pass: the last sample is the current position and every earlier sample is at or
  above the ground; the running maximum is the maximum of the heights sampled so far;
  the number of samples is the number of passes plus one.
\<close>

definition samples_ok :: "sim_state \<Rightarrow> bool" where
  "samples_ok s \<longleftrightarrow>
     s_trajectory s \<noteq> [] \<and> last (s_trajectory s) = (s_x s, s_y s) \<and>
     (\<forall>q \<in> set (butlast (s_trajectory s)). 0 \<le> snd q)"

definition height_ok :: "sim_state \<Rightarrow> bool" where
  "height_ok s \<longleftrightarrow>
     s_trajectory s \<noteq> [] \<and> s_max_height s = Max (snd ` set (s_trajectory s))"

definition clock_ok :: "params \<Rightarrow> sim_state \<Rightarrow> bool" where
  "clock_ok p s \<longleftrightarrow> real (length (s_trajectory s)) * p_dt p = s_t s + p_dt p"

section \<open>The model with special values\<close>

subsection \<open>Arithmetic\<close>

datatype pyfloat = Finite real | PosInf | NegInf | NaN

fun fl_neg :: "pyfloat \<Rightarrow> pyfloat" where
  "fl_neg (Finite a) = Finite (- a)"
| "fl_neg PosInf = NegInf"
| "fl_neg NegInf = PosInf"
| "fl_neg NaN = NaN"

fun fl_abs :: "pyfloat \<Rightarrow> pyfloat" where
  "fl_abs (Finite a) = Finite \<bar>a\<bar>"
| "fl_abs PosInf = PosInf"
| "fl_abs NegInf = PosInf"
| "fl_abs NaN = NaN"

fun fl_add :: "pyfloat \<Rightarrow> pyfloat \<Rightarrow> pyfloat" where
  "fl_add (Finite a) (Finite b) = Finite (a + b)"
| "fl_add NaN b = NaN"
| "fl_add a NaN = NaN"
| "fl_add PosInf NegInf = NaN"
| "fl_add NegInf PosInf = NaN"
| "fl_add PosInf b = PosInf"
| "fl_add a PosInf = PosInf"
| "fl_add NegInf b = NegInf"
| "fl_add a NegInf = NegInf"

definition fl_sub :: "pyfloat \<Rightarrow> pyfloat \<Rightarrow> pyfloat" where
  "fl_sub a b = fl_add a (fl_neg b)"

text \<open>The product of an infinity and the finite number \<open>a\<close>, up to the sign of the infinity.\<close>

definition signed_inf :: "real \<Rightarrow> pyfloat" where
  "signed_inf a = (if a = 0 then NaN else if 0 < a then PosInf else NegInf)"

fun fl_mul :: "pyfloat \<Rightarrow> pyfloat \<Rightarrow> pyfloat" where
  "fl_mul (Finite a) (Finite b) = Finite (a * b)"
| "fl_mul NaN b = NaN"
| "fl_mul a NaN = NaN"
| "fl_mul (Finite a) PosInf = signed_inf a"
| "fl_mul (Finite a) NegInf = signed_inf (- a)"
| "fl_mul PosInf (Finite b) = signed_inf b"
| "fl_mul NegInf (Finite b) = signed_inf (- b)"
| "fl_mul PosInf PosInf = PosInf"
| "fl_mul PosInf NegInf = NegInf"
| "fl_mul NegInf PosInf = NegInf"
| "fl_mul NegInf NegInf = PosInf"

text \<open>
  Python's \<^verbatim>\<open>/\<close> raises for every dividend when the divisor is zero; the other cases
  are those of IEEE 754.
\<close>

fun fl_div :: "pyfloat \<Rightarrow> pyfloat \<Rightarrow> py_error + pyfloat" where
  "fl_div a (Finite b) =
     (if b = 0 then Inl ZeroDivisionError
      else case a of
             Finite x \<Rightarrow> Inr (Finite (x / b))
           | PosInf \<Rightarrow> Inr (signed_inf b)
           | NegInf \<Rightarrow> Inr (signed_inf (- b))
           | NaN \<Rightarrow> Inr NaN)"
| "fl_div NaN b = Inr NaN"
| "fl_div a NaN = Inr NaN"
| "fl_div (Finite a) b = Inr (Finite 0)"
| "fl_div a b = Inr NaN"

text \<open>\<^verbatim>\<open>x ** 2\<close>.\<close>

fun fl_pow2 :: "pyfloat \<Rightarrow> pyfloat" where
  "fl_pow2 (Finite a) = Finite (a ^ 2)"
| "fl_pow2 PosInf = PosInf"
| "fl_pow2 NegInf = PosInf"
| "fl_pow2 NaN = NaN"

text \<open>\<^verbatim>\<open>math.sqrt\<close>, \<^verbatim>\<open>math.cos\<close>, \<^verbatim>\<open>math.sin\<close> and \<^verbatim>\<open>math.radians\<close>.\<close>

fun fl_sqrt :: "pyfloat \<Rightarrow> py_error + pyfloat" where
  "fl_sqrt (Finite a) = (if a < 0 then Inl ValueError else Inr (Finite (sqrt a)))"
| "fl_sqrt PosInf = Inr PosInf"
| "fl_sqrt NegInf = Inl ValueError"
| "fl_sqrt NaN = Inr NaN"

fun fl_cos :: "pyfloat \<Rightarrow> py_error + pyfloat" where
  "fl_cos (Finite a) = Inr (Finite (cos a))"
| "fl_cos NaN = Inr NaN"
| "fl_cos a = Inl ValueError"

fun fl_sin :: "pyfloat \<Rightarrow> py_error + pyfloat" where
  "fl_sin (Finite a) = Inr (Finite (sin a))"
| "fl_sin NaN = Inr NaN"
| "fl_sin a = Inl ValueError"

definition fl_radians :: "pyfloat \<Rightarrow> pyfloat" where
  "fl_radians a = fl_mul a (Finite (pi / 180))"

text \<open>The comparisons \<^verbatim>\<open><=\<close>, \<^verbatim>\<open><\<close>, \<^verbatim>\<open>>=\<close> and \<^verbatim>\<open>>\<close>: false whenever an operand is NaN.\<close>

fun fl_le :: "pyfloat \<Rightarrow> pyfloat \<Rightarrow> bool" where
  "fl_le (Finite a) (Finite b) \<longleftrightarrow> a \<le> b"
| "fl_le NaN b \<longleftrightarrow> False"
| "fl_le a NaN \<longleftrightarrow> False"
| "fl_le NegInf b \<longleftrightarrow> True"
| "fl_le a PosInf \<longleftrightarrow> True"
| "fl_le a b \<longleftrightarrow> False"

definition fl_lt :: "pyfloat \<Rightarrow> pyfloat \<Rightarrow> bool" where
  "fl_lt a b \<longleftrightarrow> fl_le a b \<and> a \<noteq> b"

definition fl_ge :: "pyfloat \<Rightarrow> pyfloat \<Rightarrow> bool" where
  "fl_ge a b \<longleftrightarrow> fl_le b a"

definition fl_gt :: "pyfloat \<Rightarrow> pyfloat \<Rightarrow> bool" where
  "fl_gt a b \<longleftrightarrow> fl_lt b a"

text \<open>Sequencing of two computations that may raise.\<close>

definition and_then :: "py_error + 'a \<Rightarrow> ('a \<Rightarrow> py_error + 'b) \<Rightarrow> py_error + 'b" where
  "and_then r f = (case r of Inl err \<Rightarrow> Inl err | Inr x \<Rightarrow> f x)"

subsection \<open>Data\<close>

text \<open>The records of the exact model, with fields that may hold a special value.\<close>

record SimulationResult_fl =
  dt_fl :: pyfloat
  trajectory_fl :: "(pyfloat \<times> pyfloat) list"
  f_range_fl :: pyfloat
  max_height_fl :: pyfloat
  final_speed_fl :: pyfloat

record params_fl =
  q_v0 :: pyfloat
  q_angle :: pyfloat
  q_m :: pyfloat
  q_rho :: pyfloat
  q_C :: pyfloat
  q_S :: pyfloat
  q_dt :: pyfloat

record entries_fl =
  w_v0 :: "pyfloat option"
  w_angle :: "pyfloat option"
  w_m :: "pyfloat option"
  w_rho :: "pyfloat option"
  w_C :: "pyfloat option"
  w_S :: "pyfloat option"
  w_dt :: "pyfloat option"

record sim_state_fl =
  u_x :: pyfloat
  u_y :: pyfloat
  u_vx :: pyfloat
  u_vy :: pyfloat
  u_trajectory :: "(pyfloat \<times> pyfloat) list"
  u_times :: "pyfloat list"
  u_t :: pyfloat
  u_max_height :: pyfloat

record app_fl =
  results_fl :: "SimulationResult_fl list"

subsection \<open>The program\<close>

text \<open>
  The functions of the exact model, read with the arithmetic above. The literal \<^verbatim>\<open>0\<close> of
  the two \<^verbatim>\<open>else\<close> branches is an integer that Python converts when it is used.
\<close>

definition get_parameters_fl :: "entries_fl \<Rightarrow> input_error + params_fl" where
  "get_parameters_fl e =
     (case w_v0 e of None \<Rightarrow> Inl NotANumber | Some v0 \<Rightarrow>
      case w_angle e of None \<Rightarrow> Inl NotANumber | Some angle \<Rightarrow>
      case w_m e of None \<Rightarrow> Inl NotANumber | Some m \<Rightarrow>
      case w_rho e of None \<Rightarrow> Inl NotANumber | Some rho \<Rightarrow>
      case w_C e of None \<Rightarrow> Inl NotANumber | Some C \<Rightarrow>
      case w_S e of None \<Rightarrow> Inl NotANumber | Some S \<Rightarrow>
      case w_dt e of None \<Rightarrow> Inl NotANumber | Some d \<Rightarrow>
        if fl_le d (Finite 0) then Inl StepNotPositive
        else if fl_le v0 (Finite 0) then Inl SpeedNotPositive
        else if fl_le angle (Finite 0) \<or> fl_ge angle (Finite 90) then Inl AngleOutOfRange
        else Inr \<lparr>q_v0 = v0, q_angle = angle, q_m = m, q_rho = rho,
                  q_C = C, q_S = S, q_dt = d\<rparr>)"

definition calculate_drag_force_fl :: "pyfloat \<Rightarrow> params_fl \<Rightarrow> pyfloat" where
  "calculate_drag_force_fl v p =
     fl_mul (fl_mul (fl_mul (fl_mul (Finite 0.5) (q_rho p)) (q_C p)) (q_S p)) (fl_pow2 v)"

text \<open>\<^verbatim>\<open>math.sqrt(vx ** 2 + vy ** 2)\<close>, which the source writes twice.\<close>

definition speed_fl :: "pyfloat \<Rightarrow> pyfloat \<Rightarrow> py_error + pyfloat" where
  "speed_fl vx vy = fl_sqrt (fl_add (fl_pow2 vx) (fl_pow2 vy))"

definition acceleration_fl :: "params_fl \<Rightarrow> pyfloat \<Rightarrow> pyfloat \<Rightarrow> py_error + pyfloat \<times> pyfloat" where
  "acceleration_fl p vx vy =
     and_then (speed_fl vx vy) (\<lambda>v.
       let drag_force = calculate_drag_force_fl v p
       in if fl_gt v (Finite 0) then
            and_then (fl_div (fl_mul (fl_neg drag_force) vx) (fl_mul (q_m p) v)) (\<lambda>ax.
            and_then (fl_div (fl_mul drag_force vy) (fl_mul (q_m p) v)) (\<lambda>q.
              Inr (ax, fl_sub (fl_neg (Finite self_g)) q)))
          else Inr (Finite 0, fl_neg (Finite self_g)))"

definition euler_step_fl :: "params_fl \<Rightarrow> sim_state_fl \<Rightarrow> py_error + sim_state_fl" where
  "euler_step_fl p s =
     and_then (acceleration_fl p (u_vx s) (u_vy s)) (\<lambda>(ax, ay).
       let vx' = fl_add (u_vx s) (fl_mul ax (q_dt p));
           vy' = fl_add (u_vy s) (fl_mul ay (q_dt p));
           x' = fl_add (u_x s) (fl_mul vx' (q_dt p));
           y' = fl_add (u_y s) (fl_mul vy' (q_dt p));
           t' = fl_add (u_t s) (q_dt p)
       in Inr \<lparr>u_x = x', u_y = y', u_vx = vx', u_vy = vy',
               u_trajectory = u_trajectory s @ [(x', y')],
               u_times = u_times s @ [t'],
               u_t = t',
               u_max_height = (if fl_gt y' (u_max_height s) then y' else u_max_height s)\<rparr>)"

fun euler_loop_fl :: "nat \<Rightarrow> params_fl \<Rightarrow> sim_state_fl \<Rightarrow> (py_error + sim_state_fl) option" where
  "euler_loop_fl 0 p s = (if fl_ge (u_y s) (Finite 0) then None else Some (Inr s))"
| "euler_loop_fl (Suc k) p s =
     (if fl_ge (u_y s) (Finite 0) then
        (case euler_step_fl p s of
           Inl err \<Rightarrow> Some (Inl err)
         | Inr s' \<Rightarrow> euler_loop_fl k p s')
      else Some (Inr s))"

definition initial_state_fl :: "params_fl \<Rightarrow> py_error + sim_state_fl" where
  "initial_state_fl p =
     (let angle_rad = fl_radians (q_angle p)
      in and_then (fl_cos angle_rad) (\<lambda>c.
         and_then (fl_sin angle_rad) (\<lambda>sn.
           Inr \<lparr>u_x = Finite 0, u_y = Finite 0,
                u_vx = fl_mul (q_v0 p) c,
                u_vy = fl_mul (q_v0 p) sn,
                u_trajectory = [(Finite 0, Finite 0)],
                u_times = [Finite 0],
                u_t = Finite 0,
                u_max_height = Finite 0\<rparr>)))"

definition make_result_fl :: "params_fl \<Rightarrow> sim_state_fl \<Rightarrow> py_error + SimulationResult_fl" where
  "make_result_fl p s =
     and_then (if fl_le (u_y s) (Finite 0) then speed_fl (u_vx s) (u_vy s) else Inr (Finite 0))
       (\<lambda>final. Inr \<lparr>dt_fl = q_dt p,
                      trajectory_fl = u_trajectory s,
                      f_range_fl = u_x s,
                      max_height_fl = u_max_height s,
                      final_speed_fl = final\<rparr>)"

text \<open>The simulation from the initial conditions to the object that is stored.\<close>

definition simulate_fl :: "nat \<Rightarrow> params_fl \<Rightarrow> (py_error + SimulationResult_fl) option" where
  "simulate_fl n p =
     (case initial_state_fl p of
        Inl err \<Rightarrow> Some (Inl err)
      | Inr s0 \<Rightarrow>
          (case euler_loop_fl n p s0 of
             None \<Rightarrow> None
           | Some (Inl err) \<Rightarrow> Some (Inl err)
           | Some (Inr s) \<Rightarrow> Some (make_result_fl p s)))"

fun confirm_duplicates_fl ::
  "pyfloat \<Rightarrow> SimulationResult_fl list \<Rightarrow> (nat \<Rightarrow> bool) \<Rightarrow> nat \<Rightarrow> bool" where
  "confirm_duplicates_fl d [] ask k = True"
| "confirm_duplicates_fl d (r # rs) ask k =
     (if fl_lt (fl_abs (fl_sub (dt_fl r) d)) (Finite (1 / 10 ^ 10)) then
        (if \<not> ask k then False else confirm_duplicates_fl d rs ask (Suc k))
      else confirm_duplicates_fl d rs ask k)"

definition run_simulation_fl ::
  "nat \<Rightarrow> (nat \<Rightarrow> bool) \<Rightarrow> entries_fl \<Rightarrow> app_fl \<Rightarrow> (outcome \<times> app_fl) option" where
  "run_simulation_fl n ask e a =
     (case get_parameters_fl e of
        Inl err \<Rightarrow> Some (Rejected err, a)
      | Inr p \<Rightarrow>
          if \<not> confirm_duplicates_fl (q_dt p) (results_fl a) ask 0 then Some (Declined, a)
          else
            (case simulate_fl n p of
               None \<Rightarrow> None
             | Some (Inl err) \<Rightarrow> Some (Crashed err, a)
             | Some (Inr r) \<Rightarrow> Some (Stored, a\<lparr>results_fl := results_fl a @ [r]\<rparr>)))"

text \<open>A user who declines every confirmation, and one who accepts every confirmation.\<close>

definition always_no :: "nat \<Rightarrow> bool" where
  "always_no k = False"

definition always_yes :: "nat \<Rightarrow> bool" where
  "always_yes k = True"

subsection \<open>Finite values\<close>

text \<open>The values of the exact model as values of the model with special values.\<close>

definition finite_params :: "params \<Rightarrow> params_fl" where
  "finite_params p =
     \<lparr>q_v0 = Finite (p_v0 p), q_angle = Finite (p_angle p), q_m = Finite (p_m p),
      q_rho = Finite (p_rho p), q_C = Finite (p_C p), q_S = Finite (p_S p),
      q_dt = Finite (p_dt p)\<rparr>"

definition finite_entries :: "entries \<Rightarrow> entries_fl" where
  "finite_entries e =
     \<lparr>w_v0 = map_option Finite (e_v0 e), w_angle = map_option Finite (e_angle e),
      w_m = map_option Finite (e_m e), w_rho = map_option Finite (e_rho e),
      w_C = map_option Finite (e_C e), w_S = map_option Finite (e_S e),
      w_dt = map_option Finite (e_dt e)\<rparr>"

definition finite_point :: "real \<times> real \<Rightarrow> pyfloat \<times> pyfloat" where
  "finite_point q = (Finite (fst q), Finite (snd q))"

definition finite_state :: "sim_state \<Rightarrow> sim_state_fl" where
  "finite_state s =
     \<lparr>u_x = Finite (s_x s), u_y = Finite (s_y s), u_vx = Finite (s_vx s),
      u_vy = Finite (s_vy s), u_trajectory = map finite_point (s_trajectory s),
      u_times = map Finite (s_times s), u_t = Finite (s_t s),
      u_max_height = Finite (s_max_height s)\<rparr>"

definition finite_result :: "SimulationResult \<Rightarrow> SimulationResult_fl" where
  "finite_result r =
     \<lparr>dt_fl = Finite (dt r), trajectory_fl = map finite_point (trajectory r),
      f_range_fl = Finite (f_range r), max_height_fl = Finite (max_height r),
      final_speed_fl = Finite (final_speed r)\<rparr>"

definition finite_app :: "app \<Rightarrow> app_fl" where
  "finite_app a = \<lparr>results_fl = map finite_result (results a)\<rparr>"

section \<open>Example inputs\<close>

subsection \<open>A worked example\<close>

text \<open>
  A launch at 2 m/s and 30 degrees with unit mass, density, drag coefficient, area and
  step. The initial velocity is \<open>(sqrt 3, 1)\<close>, the speed is 2, the drag force is 2 and
  the acceleration is \<open>(- sqrt 3, - 10.81)\<close>: after one step the velocity is
  \<open>(0, - 9.81)\<close> and the body is below the ground.
\<close>

abbreviation example_entries :: entries where
  "example_entries \<equiv>
     \<lparr>e_v0 = Some 2, e_angle = Some 30, e_m = Some 1, e_rho = Some 1,
      e_C = Some 1, e_S = Some 1, e_dt = Some 1\<rparr>"

abbreviation example_params :: params where
  "example_params \<equiv>
     \<lparr>p_v0 = 2, p_angle = 30, p_m = 1, p_rho = 1, p_C = 1, p_S = 1, p_dt = 1\<rparr>"

abbreviation example_landing :: sim_state where
  "example_landing \<equiv>
     \<lparr>s_x = 0, s_y = - (981 / 100), s_vx = 0, s_vy = - (981 / 100),
      s_trajectory = [(0, 0), (0, - (981 / 100))], s_times = [0, 1], s_t = 1,
      s_max_height = 0\<rparr>"

text \<open>
  The same launch without drag (drag coefficient 0) and with a step of 0.1 s: the body
  rises for one step, to a height of 0.0019 m, and is below the ground after the second.
\<close>

abbreviation flight_entries :: entries where
  "flight_entries \<equiv>
     \<lparr>e_v0 = Some 2, e_angle = Some 30, e_m = Some 1, e_rho = Some (129 / 100),
      e_C = Some 0, e_S = Some (1 / 100), e_dt = Some (1 / 10)\<rparr>"

abbreviation flight_params :: params where
  "flight_params \<equiv>
     \<lparr>p_v0 = 2, p_angle = 30, p_m = 1, p_rho = 129 / 100, p_C = 0, p_S = 1 / 100,
      p_dt = 1 / 10\<rparr>"

abbreviation flight_apex :: sim_state where
  "flight_apex \<equiv>
     \<lparr>s_x = sqrt 3 / 10, s_y = 19 / 10000, s_vx = sqrt 3, s_vy = 19 / 1000,
      s_trajectory = [(0, 0), (sqrt 3 / 10, 19 / 10000)], s_times = [0, 1 / 10],
      s_t = 1 / 10, s_max_height = 19 / 10000\<rparr>"

abbreviation flight_landing :: sim_state where
  "flight_landing \<equiv>
     \<lparr>s_x = sqrt 3 / 5, s_y = - (943 / 10000), s_vx = sqrt 3, s_vy = - (481 / 500),
      s_trajectory = [(0, 0), (sqrt 3 / 10, 19 / 10000), (sqrt 3 / 5, - (943 / 10000))],
      s_times = [0, 1 / 10, 1 / 5], s_t = 1 / 5, s_max_height = 19 / 10000\<rparr>"

text \<open>An entry form with a step of zero, which the validation refuses.\<close>

abbreviation rejected_entries :: entries where
  "rejected_entries \<equiv>
     \<lparr>e_v0 = Some 2, e_angle = Some 30, e_m = Some 1, e_rho = Some 1,
      e_C = Some 1, e_S = Some 1, e_dt = Some 0\<rparr>"

text \<open>The default entries of the form with the mass set to zero.\<close>

abbreviation massless_entries :: entries where
  "massless_entries \<equiv>
     \<lparr>e_v0 = Some 100, e_angle = Some 45, e_m = Some 0, e_rho = Some (129 / 100),
      e_C = Some (3 / 20), e_S = Some (1 / 100), e_dt = Some (1 / 100)\<rparr>"

abbreviation massless_params :: params where
  "massless_params \<equiv>
     \<lparr>p_v0 = 100, p_angle = 45, p_m = 0, p_rho = 129 / 100,
      p_C = 3 / 20, p_S = 1 / 100, p_dt = 1 / 100\<rparr>"

text \<open>The default entries of the form, and their parameters.\<close>

abbreviation default_form :: entries where
  "default_form \<equiv>
     \<lparr>e_v0 = Some 100, e_angle = Some 45, e_m = Some 1, e_rho = Some (129 / 100),
      e_C = Some (3 / 20), e_S = Some (1 / 100), e_dt = Some (1 / 100)\<rparr>"

abbreviation default_flight :: params where
  "default_flight \<equiv>
     \<lparr>p_v0 = 100, p_angle = 45, p_m = 1, p_rho = 129 / 100,
      p_C = 3 / 20, p_S = 1 / 100, p_dt = 1 / 100\<rparr>"

text \<open>The same entries in the model with special values.\<close>

abbreviation default_entries :: entries_fl where
  "default_entries \<equiv>
     \<lparr>w_v0 = Some (Finite 100), w_angle = Some (Finite 45), w_m = Some (Finite 1),
      w_rho = Some (Finite (129 / 100)), w_C = Some (Finite (3 / 20)),
      w_S = Some (Finite (1 / 100)), w_dt = Some (Finite (1 / 100))\<rparr>"

abbreviation default_params :: params_fl where
  "default_params \<equiv>
     \<lparr>q_v0 = Finite 100, q_angle = Finite 45, q_m = Finite 1,
      q_rho = Finite (129 / 100), q_C = Finite (3 / 20),
      q_S = Finite (1 / 100), q_dt = Finite (1 / 100)\<rparr>"

text \<open>The default entries with a step of zero.\<close>

abbreviation zero_step_entries :: entries_fl where
  "zero_step_entries \<equiv>
     \<lparr>w_v0 = Some (Finite 100), w_angle = Some (Finite 45), w_m = Some (Finite 1),
      w_rho = Some (Finite (129 / 100)), w_C = Some (Finite (3 / 20)),
      w_S = Some (Finite (1 / 100)), w_dt = Some (Finite 0)\<rparr>"

text \<open>The default entries with the text \<^verbatim>\<open>nan\<close> in the angle field.\<close>

abbreviation nan_angle_entries :: entries_fl where
  "nan_angle_entries \<equiv>
     \<lparr>w_v0 = Some (Finite 100), w_angle = Some NaN, w_m = Some (Finite 1),
      w_rho = Some (Finite (129 / 100)), w_C = Some (Finite (3 / 20)),
      w_S = Some (Finite (1 / 100)), w_dt = Some (Finite (1 / 100))\<rparr>"

abbreviation nan_angle_params :: params_fl where
  "nan_angle_params \<equiv>
     \<lparr>q_v0 = Finite 100, q_angle = NaN, q_m = Finite 1,
      q_rho = Finite (129 / 100), q_C = Finite (3 / 20),
      q_S = Finite (1 / 100), q_dt = Finite (1 / 100)\<rparr>"

text \<open>
  The default entries with the text \<^verbatim>\<open>inf\<close> in the speed field, the state before the
  first pass of the loop, the state after it, and the result.
\<close>

abbreviation infinite_speed_entries :: entries_fl where
  "infinite_speed_entries \<equiv>
     \<lparr>w_v0 = Some PosInf, w_angle = Some (Finite 45), w_m = Some (Finite 1),
      w_rho = Some (Finite (129 / 100)), w_C = Some (Finite (3 / 20)),
      w_S = Some (Finite (1 / 100)), w_dt = Some (Finite (1 / 100))\<rparr>"

abbreviation infinite_speed_params :: params_fl where
  "infinite_speed_params \<equiv>
     \<lparr>q_v0 = PosInf, q_angle = Finite 45, q_m = Finite 1,
      q_rho = Finite (129 / 100), q_C = Finite (3 / 20),
      q_S = Finite (1 / 100), q_dt = Finite (1 / 100)\<rparr>"

abbreviation infinite_speed_start :: sim_state_fl where
  "infinite_speed_start \<equiv>
     \<lparr>u_x = Finite 0, u_y = Finite 0, u_vx = PosInf, u_vy = PosInf,
      u_trajectory = [(Finite 0, Finite 0)], u_times = [Finite 0], u_t = Finite 0,
      u_max_height = Finite 0\<rparr>"

abbreviation infinite_speed_state :: sim_state_fl where
  "infinite_speed_state \<equiv>
     \<lparr>u_x = NaN, u_y = NaN, u_vx = NaN, u_vy = NaN,
      u_trajectory = [(Finite 0, Finite 0), (NaN, NaN)],
      u_times = [Finite 0, Finite (1 / 100)], u_t = Finite (1 / 100),
      u_max_height = Finite 0\<rparr>"

abbreviation infinite_speed_outcome :: SimulationResult_fl where
  "infinite_speed_outcome \<equiv>
     \<lparr>dt_fl = Finite (1 / 100), trajectory_fl = [(Finite 0, Finite 0), (NaN, NaN)],
      f_range_fl = NaN, max_height_fl = Finite 0, final_speed_fl = Finite 0\<rparr>"

text \<open>A result stored by an earlier run with the default step.\<close>

abbreviation earlier_result :: SimulationResult_fl where
  "earlier_result \<equiv>
     \<lparr>dt_fl = Finite (1 / 100), trajectory_fl = [(Finite 0, Finite 0)],
      f_range_fl = Finite 0, max_height_fl = Finite 0, final_speed_fl = Finite 0\<rparr>"

section \<open>Properties\<close>

subsection \<open>Basic facts\<close>

lemma initial_speed:
  "sqrt ((v * cos a) ^ 2 + (v * sin a) ^ 2) = \<bar>v\<bar>"
proof -
  have "(v * cos a) ^ 2 + (v * sin a) ^ 2 = v ^ 2 * ((cos a) ^ 2 + (sin a) ^ 2)"
    by (simp only: power_mult_distrib distrib_left)
  also have "\<dots> = v ^ 2"
    by (simp only: sin_cos_squared_add2 mult_1_right)
  finally show ?thesis by simp
qed

lemma get_parameters_valid:
  assumes "get_parameters e = Inr p"
  shows "0 < p_dt p" and "0 < p_v0 p" and "0 < p_angle p" and "p_angle p < 90"
  using assms
  by (auto simp: get_parameters_def split: option.splits if_splits)

lemma get_parameters_fields:
  assumes "get_parameters e = Inr p"
  shows "e_v0 e = Some (p_v0 p)" "e_angle e = Some (p_angle p)" "e_m e = Some (p_m p)"
    "e_rho e = Some (p_rho p)" "e_C e = Some (p_C p)" "e_S e = Some (p_S p)"
    "e_dt e = Some (p_dt p)"
  using assms
  by (auto simp: get_parameters_def split: option.splits if_splits)

lemma acceleration_zero_speed:
  "sqrt (vx ^ 2 + vy ^ 2) = 0 \<Longrightarrow> acceleration p vx vy = Inr (0, - self_g)"
  by (simp add: acceleration_def Let_def)

lemma acceleration_positive_speed:
  assumes "0 < sqrt (vx ^ 2 + vy ^ 2)" and "p_m p \<noteq> 0"
  shows "acceleration p vx vy =
     Inr (- calculate_drag_force (sqrt (vx ^ 2 + vy ^ 2)) p * vx / (p_m p * sqrt (vx ^ 2 + vy ^ 2)),
          - self_g - calculate_drag_force (sqrt (vx ^ 2 + vy ^ 2)) p * vy / (p_m p * sqrt (vx ^ 2 + vy ^ 2)))"
proof -
  have "p_m p * sqrt (vx ^ 2 + vy ^ 2) \<noteq> 0" using assms by auto
  with assms(1) show ?thesis unfolding acceleration_def Let_def by simp
qed

lemma acceleration_zero_mass:
  assumes "0 < sqrt (vx ^ 2 + vy ^ 2)" and "p_m p = 0"
  shows "acceleration p vx vy = Inl ZeroDivisionError"
  using assms by (simp add: acceleration_def Let_def)

lemma euler_step_velocity:
  assumes "euler_step p s = Inr s'"
  shows "\<exists>ax ay. acceleration p (s_vx s) (s_vy s) = Inr (ax, ay) \<and>
           s_vx s' = s_vx s + ax * p_dt p \<and> s_vy s' = s_vy s + ay * p_dt p"
  using assms
  by (auto simp: euler_step_def Let_def split: sum.splits prod.splits)

lemma euler_step_position:
  assumes "euler_step p s = Inr s'"
  shows "s_x s' = s_x s + s_vx s' * p_dt p" and "s_y s' = s_y s + s_vy s' * p_dt p"
  using assms
  by (auto simp: euler_step_def Let_def split: sum.splits prod.splits)

lemma euler_step_clock:
  assumes "euler_step p s = Inr s'"
  shows "s_t s' = s_t s + p_dt p" and "s_times s' = s_times s @ [s_t s']"
  using assms
  by (auto simp: euler_step_def Let_def split: sum.splits prod.splits)

lemma euler_step_trajectory:
  assumes "euler_step p s = Inr s'"
  shows "s_trajectory s' = s_trajectory s @ [(s_x s', s_y s')]"
  using assms
  by (auto simp: euler_step_def Let_def split: sum.splits prod.splits)

lemma euler_step_max_height:
  assumes "euler_step p s = Inr s'"
  shows "s_max_height s' = (if s_y s' > s_max_height s then s_y s' else s_max_height s)"
  using assms
  by (auto simp: euler_step_def Let_def split: sum.splits prod.splits)

lemma euler_loop_invariant:
  assumes step: "\<And>s s'. I s \<Longrightarrow> 0 \<le> s_y s \<Longrightarrow> euler_step p s = Inr s' \<Longrightarrow> I s'"
    and "I s" and "euler_loop n p s = Some (Inr s')"
  shows "I s'"
  using assms(2,3)
proof (induction n arbitrary: s)
  case 0
  then show ?case by (simp split: if_splits)
next
  case (Suc k)
  show ?case
  proof (cases "0 \<le> s_y s")
    case False
    with Suc.prems show ?thesis by simp
  next
    case True
    with Suc.prems obtain s1 where s1: "euler_step p s = Inr s1"
      and rest: "euler_loop k p s1 = Some (Inr s')"
      by (auto split: sum.splits)
    from step [OF Suc.prems(1) True s1] have "I s1" .
    from Suc.IH [OF this rest] show ?thesis .
  qed
qed

lemma euler_loop_exit:
  "euler_loop n p s = Some (Inr s') \<Longrightarrow> s_y s' < 0"
proof (induction n arbitrary: s)
  case 0
  then show ?case by (simp split: if_splits)
next
  case (Suc k)
  then show ?case by (auto split: if_splits sum.splits)
qed

lemma euler_loop_last_step:
  assumes "euler_loop n p s = Some (Inr s')" and "0 \<le> s_y s"
  shows "\<exists>s0. 0 \<le> s_y s0 \<and> euler_step p s0 = Inr s'"
  using assms
proof (induction n arbitrary: s)
  case 0
  then show ?case by simp
next
  case (Suc k)
  from Suc.prems obtain s1 where s1: "euler_step p s = Inr s1"
    and rest: "euler_loop k p s1 = Some (Inr s')"
    by (auto split: sum.splits)
  show ?case
  proof (cases "0 \<le> s_y s1")
    case True
    from Suc.IH [OF rest True] show ?thesis .
  next
    case False
    with rest have "s' = s1" by (cases k) simp_all
    with s1 Suc.prems(2) show ?thesis by blast
  qed
qed

lemma euler_loop_more_fuel:
  "euler_loop n p s = Some r \<Longrightarrow> euler_loop (n + k) p s = Some r"
proof (induction n arbitrary: s)
  case 0
  then show ?case by (cases k) (simp_all split: if_splits)
next
  case (Suc n)
  then show ?case by (auto split: if_splits sum.splits)
qed

lemma samples_ok_initial: "samples_ok (initial_state p)"
  by (simp add: samples_ok_def initial_state_def Let_def)

lemma samples_ok_step:
  assumes "samples_ok s" and "0 \<le> s_y s" and "euler_step p s = Inr s'"
  shows "samples_ok s'"
proof -
  from assms(3) have tr: "s_trajectory s' = s_trajectory s @ [(s_x s', s_y s')]"
    by (rule euler_step_trajectory)
  from assms(1) have ne: "s_trajectory s \<noteq> []"
    and la: "last (s_trajectory s) = (s_x s, s_y s)"
    and bl: "\<forall>q \<in> set (butlast (s_trajectory s)). 0 \<le> snd q"
    by (simp_all add: samples_ok_def)
  have "set (s_trajectory s) = set (butlast (s_trajectory s)) \<union> {last (s_trajectory s)}"
    using ne by (metis append_butlast_last_id list.simps(15) set_append Un_insert_right sup_bot.right_neutral empty_set)
  with la bl assms(2) have "\<forall>q \<in> set (s_trajectory s). 0 \<le> snd q"
    by auto
  with tr show ?thesis by (simp add: samples_ok_def)
qed

lemma height_ok_initial: "height_ok (initial_state p)"
  by (simp add: height_ok_def initial_state_def Let_def)

lemma height_ok_step:
  assumes "height_ok s" and "euler_step p s = Inr s'"
  shows "height_ok s'"
proof -
  from assms(2) have tr: "s_trajectory s' = s_trajectory s @ [(s_x s', s_y s')]"
    by (rule euler_step_trajectory)
  from assms(2)
  have mh: "s_max_height s' = (if s_y s' > s_max_height s then s_y s' else s_max_height s)"
    by (rule euler_step_max_height)
  from assms(1) have ne: "s_trajectory s \<noteq> []"
    and old: "s_max_height s = Max (snd ` set (s_trajectory s))"
    by (simp_all add: height_ok_def)
  have "Max (snd ` set (s_trajectory s')) = max (s_y s') (Max (snd ` set (s_trajectory s)))"
    using ne by (simp add: tr)
  with mh old tr show ?thesis by (simp add: height_ok_def max_def)
qed

lemma clock_ok_initial: "clock_ok p (initial_state p)"
  by (simp add: clock_ok_def initial_state_def Let_def)

lemma clock_ok_step:
  assumes "clock_ok p s" and "euler_step p s = Inr s'"
  shows "clock_ok p s'"
proof -
  from assms(2) have tr: "s_trajectory s' = s_trajectory s @ [(s_x s', s_y s')]"
    by (rule euler_step_trajectory)
  from assms(2) have t: "s_t s' = s_t s + p_dt p"
    by (rule euler_step_clock)
  with tr assms(1) show ?thesis by (simp add: clock_ok_def algebra_simps)
qed

lemma example_accepted: "get_parameters example_entries = Inr example_params"
  by (simp add: get_parameters_def)

lemma example_initial:
  "initial_state example_params =
     \<lparr>s_x = 0, s_y = 0, s_vx = sqrt 3, s_vy = 1, s_trajectory = [(0, 0)],
      s_times = [0], s_t = 0, s_max_height = 0\<rparr>"
  by (simp add: initial_state_def radians_def Let_def cos_30 sin_30)

lemma example_acceleration:
  "acceleration example_params (sqrt 3) 1 = Inr (- sqrt 3, - (1081 / 100))"
proof -
  have "sqrt ((sqrt 3) ^ 2 + 1 ^ 2) = 2" by simp
  then show ?thesis
    by (simp add: acceleration_def calculate_drag_force_def self_g_def Let_def)
qed

lemma example_step:
  "euler_step example_params (initial_state example_params) = Inr example_landing"
  by (simp add: example_initial euler_step_def example_acceleration Let_def)

lemma initial_state_height: "s_y (initial_state p) = 0"
  by (simp add: initial_state_def Let_def)

lemma example_run: "simulate (Suc 0) example_params = Some (Inr example_landing)"
  by (simp add: simulate_def example_step initial_state_height)

lemma first_sample_step:
  assumes "s_trajectory s \<noteq> [] \<and> hd (s_trajectory s) = (0, 0)"
    and "0 \<le> s_y s" and "euler_step p s = Inr s'"
  shows "s_trajectory s' \<noteq> [] \<and> hd (s_trajectory s') = (0, 0)"
  using assms(1) euler_step_trajectory [OF assms(3)] by simp

lemma height_ok_guarded_step:
  assumes "height_ok s" and "0 \<le> s_y s" and "euler_step p s = Inr s'"
  shows "height_ok s'"
  using assms(1,3) by (rule height_ok_step)

lemma initial_state_speed:
  "sqrt (s_vx (initial_state p) ^ 2 + s_vy (initial_state p) ^ 2) = \<bar>p_v0 p\<bar>"
proof -
  have "s_vx (initial_state p) = p_v0 p * cos (radians (p_angle p))"
    and "s_vy (initial_state p) = p_v0 p * sin (radians (p_angle p))"
    by (simp_all add: initial_state_def Let_def)
  then show ?thesis by (simp only: initial_speed)
qed

lemma get_parameters_rejects_iff:
  "(\<exists>err. get_parameters e = Inl err) \<longleftrightarrow>
     e_v0 e = None \<or> e_angle e = None \<or> e_m e = None \<or> e_rho e = None
     \<or> e_C e = None \<or> e_S e = None \<or> e_dt e = None
     \<or> (\<exists>d. e_dt e = Some d \<and> d \<le> 0)
     \<or> (\<exists>v. e_v0 e = Some v \<and> v \<le> 0)
     \<or> (\<exists>b. e_angle e = Some b \<and> \<not> (0 < b \<and> b < 90))"
  by (auto simp: get_parameters_def split: option.splits)

lemma zero_mass_raises:
  assumes "get_parameters e = Inr p" and "p_m p = 0"
  shows "simulate (Suc n) p = Some (Inl ZeroDivisionError)"
proof -
  from assms(1) have "0 < p_v0 p" by (rule get_parameters_valid)
  then have "0 < sqrt (s_vx (initial_state p) ^ 2 + s_vy (initial_state p) ^ 2)"
    by (simp add: initial_state_speed)
  then
  have "acceleration p (s_vx (initial_state p)) (s_vy (initial_state p)) = Inl ZeroDivisionError"
    using assms(2) by (rule acceleration_zero_mass)
  then have "euler_step p (initial_state p) = Inl ZeroDivisionError"
    by (simp add: euler_step_def)
  then show ?thesis
    by (simp add: simulate_def initial_state_height)
qed

lemma massless_accepted: "get_parameters massless_entries = Inr massless_params"
  by (simp add: get_parameters_def)

lemma clock_ok_guarded_step:
  assumes "clock_ok p s" and "0 \<le> s_y s" and "euler_step p s = Inr s'"
  shows "clock_ok p s'"
  using assms(1,3) by (rule clock_ok_step)

lemma simulate_clock:
  assumes "simulate n p = Some (Inr s)"
  shows "real (length (s_trajectory s)) * p_dt p = s_t s + p_dt p"
proof -
  from assms have run: "euler_loop n p (initial_state p) = Some (Inr s)"
    by (simp add: simulate_def)
  have "clock_ok p s"
    using clock_ok_guarded_step clock_ok_initial run by (rule euler_loop_invariant)
  then show ?thesis by (simp add: clock_ok_def)
qed

lemma stored_results_come_from_runs:
  assumes "reachable a" and "r \<in> set (results a)"
  shows "\<exists>n p s. simulate n p = Some (Inr s) \<and> r = make_result p s"
  using assms
proof (induction arbitrary: r rule: reachable.induct)
  case reach_init
  then show ?case by (simp add: initial_app_def)
next
  case (reach_run a n ask e out a')
  from reach_run.hyps(2) have "a' = a \<or>
      (\<exists>p s. simulate n p = Some (Inr s) \<and> a' = a\<lparr>results := results a @ [make_result p s]\<rparr>)"
    by (auto simp: run_simulation_def split: sum.splits if_splits option.splits)
  then show ?case
  proof
    assume "a' = a"
    with reach_run.IH reach_run.prems show ?thesis by simp
  next
    assume "\<exists>p s. simulate n p = Some (Inr s)
      \<and> a' = a\<lparr>results := results a @ [make_result p s]\<rparr>"
    then obtain p s where run: "simulate n p = Some (Inr s)"
      and a': "a' = a\<lparr>results := results a @ [make_result p s]\<rparr>"
      by blast
    from reach_run.prems a' have "r \<in> set (results a) \<or> r = make_result p s"
      by auto
    then show ?thesis
    proof
      assume "r \<in> set (results a)"
      then show ?thesis by (rule reach_run.IH)
    next
      assume "r = make_result p s"
      with run show ?thesis by blast
    qed
  qed
next
  case (reach_clear a yes)
  then show ?case by (auto simp: clear_results_def split: if_splits)
qed

lemma acceleration_without_drag:
  assumes "p_rho p * p_C p * p_S p = 0" and "p_m p \<noteq> 0"
  shows "acceleration p vx vy = Inr (0, - self_g)"
proof -
  have "calculate_drag_force v p = 0" for v
    using assms(1) by (simp add: calculate_drag_force_def)
  with assms(2) show ?thesis
    by (simp add: acceleration_def Let_def)
qed

lemma euler_step_without_drag:
  assumes "p_rho p * p_C p * p_S p = 0" and "p_m p \<noteq> 0"
  shows "\<exists>s'. euler_step p s = Inr s'
    \<and> s_vy s' = s_vy s - self_g * p_dt p
    \<and> s_y s' = s_y s + s_vy s' * p_dt p"
  by (simp add: euler_step_def acceleration_without_drag [OF assms] Let_def)

lemma flight_accepted: "get_parameters flight_entries = Inr flight_params"
  by (simp add: get_parameters_def)

lemma flight_acceleration: "acceleration flight_params vx vy = Inr (0, - (981 / 100))"
  using acceleration_without_drag [of flight_params vx vy] by (simp add: self_g_def)

lemma flight_first_step: "euler_step flight_params (initial_state flight_params) = Inr flight_apex"
  by (simp add: euler_step_def flight_acceleration initial_state_def radians_def Let_def
      cos_30 sin_30)

lemma flight_second_step: "euler_step flight_params flight_apex = Inr flight_landing"
  by (simp add: euler_step_def flight_acceleration Let_def)

lemma flight_run: "simulate 2 flight_params = Some (Inr flight_landing)"
proof -
  have "euler_loop (Suc 0) flight_params flight_apex = Some (Inr flight_landing)"
    by (simp add: flight_second_step)
  then have "euler_loop (Suc (Suc 0)) flight_params (initial_state flight_params)
      = Some (Inr flight_landing)"
    by (simp add: flight_first_step initial_state_height)
  then show ?thesis by (simp add: simulate_def numeral_2_eq_2)
qed

lemma flight_stored:
  "run_simulation 2 ask flight_entries initial_app =
     Some (Stored, \<lparr>results = [make_result flight_params flight_landing]\<rparr>)"
  by (simp add: run_simulation_def flight_accepted flight_run initial_app_def)

lemma flight_reachable:
  "reachable \<lparr>results = [make_result flight_params flight_landing]\<rparr>"
  using reach_init flight_stored by (rule reach_run)

subsection \<open>Runs that end\<close>

text \<open>
  Without drag and with a nonzero mass every validated run ends: the vertical velocity
  falls by the same amount in every pass, so it becomes negative after finitely many
  passes, and from then on the height falls by at least a fixed amount per pass.
\<close>

lemma falling_body_lands:
  assumes "p_rho p * p_C p * p_S p = 0" and "p_m p \<noteq> 0" and "0 < p_dt p"
    and "s_vy s \<le> 0" and "s_y s < real k * (self_g * p_dt p * p_dt p)"
  shows "\<exists>s'. euler_loop k p s = Some (Inr s')"
  using assms(4,5)
proof (induction k arbitrary: s)
  case 0
  then show ?case by simp
next
  case (Suc k)
  show ?case
  proof (cases "0 \<le> s_y s")
    case False
    then show ?thesis by simp
  next
    case True
    from euler_step_without_drag [OF assms(1,2)] obtain s1
      where s1: "euler_step p s = Inr s1"
        and vy: "s_vy s1 = s_vy s - self_g * p_dt p"
        and y: "s_y s1 = s_y s + s_vy s1 * p_dt p"
      by blast
    have g: "0 < self_g * p_dt p" using assms(3) by (simp add: self_g_def)
    with vy Suc.prems(1) have fall: "s_vy s1 \<le> - (self_g * p_dt p)" by simp
    with g have down: "s_vy s1 \<le> 0" by linarith
    from assms(3) have "0 \<le> p_dt p" by simp
    with fall have "s_vy s1 * p_dt p \<le> - (self_g * p_dt p) * p_dt p"
      by (rule mult_right_mono)
    with y Suc.prems(2) have "s_y s1 < real k * (self_g * p_dt p * p_dt p)"
      by (simp add: algebra_simps)
    with down have "\<exists>s'. euler_loop k p s1 = Some (Inr s')" by (rule Suc.IH)
    with True s1 show ?thesis by simp
  qed
qed

lemma rising_body_lands:
  assumes "p_rho p * p_C p * p_S p = 0" and "p_m p \<noteq> 0" and "0 < p_dt p"
    and "s_vy s \<le> real j * (self_g * p_dt p)"
  shows "\<exists>n s'. euler_loop n p s = Some (Inr s')"
  using assms(4)
proof (induction j arbitrary: s)
  case 0
  have "0 < self_g * p_dt p * p_dt p" using assms(3) by (simp add: self_g_def)
  then obtain k where "s_y s < real k * (self_g * p_dt p * p_dt p)"
    using ex_less_of_nat_mult by blast
  with 0 falling_body_lands [OF assms(1-3)] show ?case by force
next
  case (Suc j)
  show ?case
  proof (cases "0 \<le> s_y s")
    case False
    then have "euler_loop 0 p s = Some (Inr s)" by simp
    then show ?thesis by blast
  next
    case True
    from euler_step_without_drag [OF assms(1,2)] obtain s1
      where s1: "euler_step p s = Inr s1"
        and vy: "s_vy s1 = s_vy s - self_g * p_dt p"
      by blast
    from vy Suc.prems have "s_vy s1 \<le> real j * (self_g * p_dt p)"
      by (simp add: algebra_simps)
    then obtain n s' where "euler_loop n p s1 = Some (Inr s')"
      using Suc.IH by blast
    with True s1 have "euler_loop (Suc n) p s = Some (Inr s')" by simp
    then show ?thesis by blast
  qed
qed

lemma drag_free_flight_lands:
  assumes "get_parameters e = Inr p"
    and "p_m p \<noteq> 0" and "p_rho p * p_C p * p_S p = 0"
  shows "\<exists>n s. simulate n p = Some (Inr s)"
proof -
  from assms(1) have d: "0 < p_dt p" by (rule get_parameters_valid)
  then have "0 < self_g * p_dt p" by (simp add: self_g_def)
  then obtain j where "s_vy (initial_state p) < real j * (self_g * p_dt p)"
    using ex_less_of_nat_mult by blast
  then have "s_vy (initial_state p) \<le> real j * (self_g * p_dt p)" by simp
  with assms(3,2) d show ?thesis
    unfolding simulate_def by (rule rising_body_lands)
qed

text \<open>
  With drag, a positive mass and a step that keeps the drag update stable, every
  validated run ends as well. One pass multiplies the velocity by
  \<open>1 - K * dt / m * v\<close>, where \<open>K\<close> is the drag force at unit speed and \<open>v\<close> the speed, and
  subtracts \<open>g * dt\<close> from its vertical component.
\<close>

lemma speed_nonneg: "0 \<le> sqrt (vx ^ 2 + vy ^ 2)"
  by simp

lemma speed_zero_iff: "sqrt (vx ^ 2 + vy ^ 2) = 0 \<longleftrightarrow> vx = 0 \<and> vy = 0"
  by (simp add: sum_power2_eq_zero_iff)

lemma drag_force_scaling: "calculate_drag_force v p = calculate_drag_force 1 p * v ^ 2"
  by (simp add: calculate_drag_force_def)

lemma euler_step_damped:
  assumes "0 < p_m p"
  shows "\<exists>s'. euler_step p s = Inr s'
    \<and> s_vx s' = (1 - calculate_drag_force 1 p * p_dt p / p_m p
                      * sqrt (s_vx s ^ 2 + s_vy s ^ 2)) * s_vx s
    \<and> s_vy s' = (1 - calculate_drag_force 1 p * p_dt p / p_m p
                      * sqrt (s_vx s ^ 2 + s_vy s ^ 2)) * s_vy s - self_g * p_dt p
    \<and> s_y s' = s_y s + s_vy s' * p_dt p"
proof (cases "0 < sqrt (s_vx s ^ 2 + s_vy s ^ 2)")
  case True
  define v where "v = sqrt (s_vx s ^ 2 + s_vy s ^ 2)"
  define K where "K = calculate_drag_force 1 p"
  from True have v: "0 < v" by (simp add: v_def)
  with assms have mv: "p_m p * v \<noteq> 0" by simp
  have acc: "acceleration p (s_vx s) (s_vy s) =
      Inr (- (K * v ^ 2) * s_vx s / (p_m p * v), - self_g - (K * v ^ 2) * s_vy s / (p_m p * v))"
    using v mv unfolding acceleration_def Let_def v_def [symmetric]
    by (simp add: drag_force_scaling [of v] K_def)
  have q: "K * v ^ 2 * w / (p_m p * v) = K / p_m p * v * w" for w
    using v assms by (simp add: power2_eq_square field_simps)
  have ax: "- (K * v ^ 2) * s_vx s / (p_m p * v) = - (K / p_m p * v * s_vx s)"
    using q [of "s_vx s"] by simp
  have ay: "(K * v ^ 2) * s_vy s / (p_m p * v) = K / p_m p * v * s_vy s"
    using q [of "s_vy s"] by simp
  show ?thesis
    unfolding euler_step_def acc ax ay v_def [symmetric] K_def [symmetric]
    by (simp add: Let_def algebra_simps)
next
  case False
  with speed_nonneg [of "s_vx s" "s_vy s"] have z: "sqrt (s_vx s ^ 2 + s_vy s ^ 2) = 0"
    by linarith
  then have "s_vx s = 0" "s_vy s = 0" by (simp_all add: speed_zero_iff)
  moreover from z have "acceleration p (s_vx s) (s_vy s) = Inr (0, - self_g)"
    by (rule acceleration_zero_speed)
  ultimately show ?thesis
    by (simp add: euler_step_def Let_def)
qed

lemma abs_le_speed: "\<bar>vy\<bar> \<le> sqrt (vx ^ 2 + vy ^ 2)" "\<bar>vx\<bar> \<le> sqrt (vx ^ 2 + vy ^ 2)"
proof -
  have "sqrt (vy ^ 2) \<le> sqrt (vx ^ 2 + vy ^ 2)" by (rule real_sqrt_le_mono) simp
  then show "\<bar>vy\<bar> \<le> sqrt (vx ^ 2 + vy ^ 2)" by simp
  have "sqrt (vx ^ 2) \<le> sqrt (vx ^ 2 + vy ^ 2)" by (rule real_sqrt_le_mono) simp
  then show "\<bar>vx\<bar> \<le> sqrt (vx ^ 2 + vy ^ 2)" by simp
qed

text \<open>
  Let \<open>V\<close> bound both velocity components. If \<open>2 * c * V \<le> 1\<close> the factor lies between 0
  and 1, and if moreover \<open>h \<le> c * V\<^sup>2\<close> the bound \<open>V\<close> is kept by the pass.
\<close>

lemma damping_factor_range:
  fixes c V vx vy :: real
  assumes c: "0 \<le> c" and stable: "2 * c * V \<le> 1"
    and vx: "\<bar>vx\<bar> \<le> V" and vy: "\<bar>vy\<bar> \<le> V"
  shows "0 \<le> 1 - c * sqrt (vx ^ 2 + vy ^ 2)" and "1 - c * sqrt (vx ^ 2 + vy ^ 2) \<le> 1"
proof -
  have "sqrt (vx ^ 2 + vy ^ 2) \<le> \<bar>vx\<bar> + \<bar>vy\<bar>" by (rule sqrt_sum_squares_le_sum_abs)
  with vx vy have "sqrt (vx ^ 2 + vy ^ 2) \<le> 2 * V" by linarith
  then have "c * sqrt (vx ^ 2 + vy ^ 2) \<le> c * (2 * V)" using c by (rule mult_left_mono)
  with stable show "0 \<le> 1 - c * sqrt (vx ^ 2 + vy ^ 2)" by (simp add: mult.assoc mult.left_commute)
  have "0 \<le> c * sqrt (vx ^ 2 + vy ^ 2)" using c by simp
  then show "1 - c * sqrt (vx ^ 2 + vy ^ 2) \<le> 1" by simp
qed

lemma damped_velocity_bounded:
  fixes c h V vx vy :: real
  assumes c: "0 \<le> c" and stable: "2 * c * V \<le> 1" and h: "0 < h" and weight: "h \<le> c * V ^ 2"
    and V: "0 < V" and vx: "\<bar>vx\<bar> \<le> V" and vy: "\<bar>vy\<bar> \<le> V"
  shows "\<bar>(1 - c * sqrt (vx ^ 2 + vy ^ 2)) * vx\<bar> \<le> V"
    and "\<bar>(1 - c * sqrt (vx ^ 2 + vy ^ 2)) * vy - h\<bar> \<le> V"
proof -
  define f where "f = 1 - c * sqrt (vx ^ 2 + vy ^ 2)"
  have f0: "0 \<le> f" and f1: "f \<le> 1"
    using damping_factor_range [OF c stable vx vy] by (simp_all add: f_def)
  have "\<bar>f * vx\<bar> = f * \<bar>vx\<bar>" using f0 by (simp add: abs_mult)
  also have "\<dots> \<le> 1 * \<bar>vx\<bar>" using f1 by (rule mult_right_mono) simp
  finally show "\<bar>(1 - c * sqrt (vx ^ 2 + vy ^ 2)) * vx\<bar> \<le> V"
    using vx by (simp add: f_def)
  have "c * V ^ 2 = (c * V) * V" by (simp add: power2_eq_square)
  also have "\<dots> \<le> 1 * V"
    using stable V c by (intro mult_right_mono) auto
  finally have hV: "h \<le> V" using weight by simp
  have upper: "f * vy - h \<le> V"
  proof -
    have "f * vy \<le> f * \<bar>vy\<bar>" using f0 by (intro mult_left_mono) auto
    also have "\<dots> \<le> 1 * \<bar>vy\<bar>" using f1 by (rule mult_right_mono) simp
    finally show ?thesis using vy h by linarith
  qed
  have lower: "- V \<le> f * vy - h"
  proof (cases "0 \<le> vy")
    case True
    with f0 have "0 \<le> f * vy" by simp
    with hV show ?thesis by linarith
  next
    case False
    define a where "a = - vy"
    from False have a0: "0 < a" by (simp add: a_def)
    from vy have aV: "a \<le> V" by (simp add: a_def)
    have "a \<le> sqrt (vx ^ 2 + vy ^ 2)"
      using abs_le_speed(1) [of vy vx] False by (simp add: a_def)
    then have "c * a \<le> c * sqrt (vx ^ 2 + vy ^ 2)" using c by (rule mult_left_mono)
    then have "f \<le> 1 - c * a" by (simp add: f_def)
    then have "f * a \<le> (1 - c * a) * a" using a0 by (intro mult_right_mono) auto
    moreover have "(1 - c * a) * a + c * V ^ 2 \<le> V"
    proof -
      have "c * (V + a) \<le> c * (2 * V)" using c aV by (intro mult_left_mono) auto
      with stable have "0 \<le> 1 - c * (V + a)" by (simp add: mult.assoc mult.left_commute)
      moreover have "0 \<le> V - a" using aV by simp
      ultimately have "0 \<le> (V - a) * (1 - c * (V + a))" by simp
      also have "\<dots> = V - ((1 - c * a) * a + c * V ^ 2)"
        by (simp add: algebra_simps power2_eq_square)
      finally show ?thesis by simp
    qed
    ultimately have "f * a + h \<le> V" using weight by linarith
    then show ?thesis by (simp add: a_def)
  qed
  from upper lower show "\<bar>(1 - c * sqrt (vx ^ 2 + vy ^ 2)) * vy - h\<bar> \<le> V"
    by (simp add: f_def abs_le_iff)
qed

lemma damped_velocity_falls:
  fixes c h V vx vy :: real
  assumes c: "0 \<le> c" and stable: "2 * c * V \<le> 1"
    and vx: "\<bar>vx\<bar> \<le> V" and vy: "\<bar>vy\<bar> \<le> V"
  shows "0 \<le> vy \<Longrightarrow> (1 - c * sqrt (vx ^ 2 + vy ^ 2)) * vy - h \<le> vy - h"
    and "vy \<le> 0 \<Longrightarrow> (1 - c * sqrt (vx ^ 2 + vy ^ 2)) * vy - h \<le> - h"
proof -
  note f = damping_factor_range [OF c stable vx vy]
  {
    assume "0 \<le> vy"
    with f(2) have "(1 - c * sqrt (vx ^ 2 + vy ^ 2)) * vy \<le> 1 * vy"
      by (rule mult_right_mono)
    then show "(1 - c * sqrt (vx ^ 2 + vy ^ 2)) * vy - h \<le> vy - h" by simp
  }
  {
    assume "vy \<le> 0"
    with f(1) have "(1 - c * sqrt (vx ^ 2 + vy ^ 2)) * vy \<le> 0"
      by (rule mult_nonneg_nonpos)
    then show "(1 - c * sqrt (vx ^ 2 + vy ^ 2)) * vy - h \<le> - h" by simp
  }
qed

text \<open>
  In terms of the parameters: at the speed \<open>V\<close> the drag force is at least the weight, and
  the drag force at \<open>V\<close> acting for two steps changes the momentum by at most \<open>m * V\<close>.
\<close>

lemma damped_constants:
  assumes m: "0 < p_m p" and d: "0 < p_dt p" and K: "0 \<le> calculate_drag_force 1 p"
    and V: "0 < V" and weight: "p_m p * self_g \<le> calculate_drag_force V p"
    and stable: "2 * calculate_drag_force V p * p_dt p \<le> p_m p * V"
  shows "0 \<le> calculate_drag_force 1 p * p_dt p / p_m p"
    and "2 * (calculate_drag_force 1 p * p_dt p / p_m p) * V \<le> 1"
    and "0 < self_g * p_dt p"
    and "self_g * p_dt p \<le> calculate_drag_force 1 p * p_dt p / p_m p * V ^ 2"
proof -
  define K where "K = calculate_drag_force 1 p"
  have KV: "calculate_drag_force V p = K * V ^ 2"
    unfolding K_def by (rule drag_force_scaling)
  show "0 \<le> calculate_drag_force 1 p * p_dt p / p_m p"
    using K d m by simp
  show "0 < self_g * p_dt p" using d by (simp add: self_g_def)
  from stable have "(2 * K * p_dt p * V) * V \<le> p_m p * V"
    by (simp add: KV power2_eq_square mult_ac)
  with V have "2 * K * p_dt p * V \<le> p_m p" by simp
  with m show "2 * (calculate_drag_force 1 p * p_dt p / p_m p) * V \<le> 1"
    by (simp add: K_def field_simps)
  from weight d have "p_m p * self_g * p_dt p \<le> K * V ^ 2 * p_dt p"
    by (simp add: KV)
  with m show "self_g * p_dt p \<le> calculate_drag_force 1 p * p_dt p / p_m p * V ^ 2"
    by (simp add: K_def field_simps)
qed

lemma euler_step_bounded:
  assumes m: "0 < p_m p" and d: "0 < p_dt p" and K: "0 \<le> calculate_drag_force 1 p"
    and V: "0 < V" and weight: "p_m p * self_g \<le> calculate_drag_force V p"
    and stable: "2 * calculate_drag_force V p * p_dt p \<le> p_m p * V"
    and vx: "\<bar>s_vx s\<bar> \<le> V" and vy: "\<bar>s_vy s\<bar> \<le> V"
  shows "\<exists>s'. euler_step p s = Inr s'
    \<and> \<bar>s_vx s'\<bar> \<le> V \<and> \<bar>s_vy s'\<bar> \<le> V
    \<and> (0 \<le> s_vy s \<longrightarrow> s_vy s' \<le> s_vy s - self_g * p_dt p)
    \<and> (s_vy s \<le> 0 \<longrightarrow> s_vy s' \<le> - (self_g * p_dt p))
    \<and> s_y s' = s_y s + s_vy s' * p_dt p"
proof -
  note c = damped_constants [OF m d K V weight stable]
  from euler_step_damped [OF m, of s] obtain s'
    where s': "euler_step p s = Inr s'"
      and svx: "s_vx s' = (1 - calculate_drag_force 1 p * p_dt p / p_m p
                      * sqrt (s_vx s ^ 2 + s_vy s ^ 2)) * s_vx s"
      and svy: "s_vy s' = (1 - calculate_drag_force 1 p * p_dt p / p_m p
                      * sqrt (s_vx s ^ 2 + s_vy s ^ 2)) * s_vy s - self_g * p_dt p"
      and sy: "s_y s' = s_y s + s_vy s' * p_dt p"
    by blast
  note b = damped_velocity_bounded [OF c(1) c(2) c(3) c(4) V vx vy]
  note f = damped_velocity_falls [OF c(1) c(2) vx vy, of "self_g * p_dt p"]
  from b(1) svx have "\<bar>s_vx s'\<bar> \<le> V" by simp
  moreover from b(2) svy have "\<bar>s_vy s'\<bar> \<le> V" by simp
  moreover from f(1) svy have "0 \<le> s_vy s \<longrightarrow> s_vy s' \<le> s_vy s - self_g * p_dt p" by simp
  moreover from f(2) svy have "s_vy s \<le> 0 \<longrightarrow> s_vy s' \<le> - (self_g * p_dt p)" by simp
  ultimately show ?thesis using s' sy by blast
qed

lemma damped_fall_lands:
  assumes m: "0 < p_m p" and d: "0 < p_dt p" and K: "0 \<le> calculate_drag_force 1 p"
    and V: "0 < V" and weight: "p_m p * self_g \<le> calculate_drag_force V p"
    and stable: "2 * calculate_drag_force V p * p_dt p \<le> p_m p * V"
    and "\<bar>s_vx s\<bar> \<le> V" and "\<bar>s_vy s\<bar> \<le> V"
    and "s_vy s \<le> 0" and "s_y s < real k * (self_g * p_dt p * p_dt p)"
  shows "\<exists>s'. euler_loop k p s = Some (Inr s')"
  using assms(7-10)
proof (induction k arbitrary: s)
  case 0
  then show ?case by simp
next
  case (Suc k)
  show ?case
  proof (cases "0 \<le> s_y s")
    case False
    then show ?thesis by simp
  next
    case True
    from euler_step_bounded [OF m d K V weight stable Suc.prems(1,2)] Suc.prems(3)
    obtain s1 where s1: "euler_step p s = Inr s1"
      and bx: "\<bar>s_vx s1\<bar> \<le> V" and bv: "\<bar>s_vy s1\<bar> \<le> V"
      and fall: "s_vy s1 \<le> - (self_g * p_dt p)"
      and y: "s_y s1 = s_y s + s_vy s1 * p_dt p"
      by blast
    have g: "0 < self_g * p_dt p" using d by (simp add: self_g_def)
    with fall have down: "s_vy s1 \<le> 0" by linarith
    from d have "0 \<le> p_dt p" by simp
    with fall have "s_vy s1 * p_dt p \<le> - (self_g * p_dt p) * p_dt p"
      by (rule mult_right_mono)
    with y Suc.prems(4) have "s_y s1 < real k * (self_g * p_dt p * p_dt p)"
      by (simp add: algebra_simps)
    with bx bv down have "\<exists>s'. euler_loop k p s1 = Some (Inr s')" by (rule Suc.IH)
    with True s1 show ?thesis by simp
  qed
qed

lemma damped_rise_lands:
  assumes m: "0 < p_m p" and d: "0 < p_dt p" and K: "0 \<le> calculate_drag_force 1 p"
    and V: "0 < V" and weight: "p_m p * self_g \<le> calculate_drag_force V p"
    and stable: "2 * calculate_drag_force V p * p_dt p \<le> p_m p * V"
    and "\<bar>s_vx s\<bar> \<le> V" and "\<bar>s_vy s\<bar> \<le> V"
    and "s_vy s \<le> real j * (self_g * p_dt p)"
  shows "\<exists>n s'. euler_loop n p s = Some (Inr s')"
  using assms(7-9)
proof (induction j arbitrary: s)
  case 0
  have "0 < self_g * p_dt p * p_dt p" using d by (simp add: self_g_def)
  then obtain k where "s_y s < real k * (self_g * p_dt p * p_dt p)"
    using ex_less_of_nat_mult by blast
  with 0 damped_fall_lands [OF m d K V weight stable] show ?case by force
next
  case (Suc j)
  show ?case
  proof (cases "0 \<le> s_y s")
    case False
    then have "euler_loop 0 p s = Some (Inr s)" by simp
    then show ?thesis by blast
  next
    case True
    from euler_step_bounded [OF m d K V weight stable Suc.prems(1,2)]
    obtain s1 where s1: "euler_step p s = Inr s1"
      and bx: "\<bar>s_vx s1\<bar> \<le> V" and bv: "\<bar>s_vy s1\<bar> \<le> V"
      and up: "0 \<le> s_vy s \<longrightarrow> s_vy s1 \<le> s_vy s - self_g * p_dt p"
      and dn: "s_vy s \<le> 0 \<longrightarrow> s_vy s1 \<le> - (self_g * p_dt p)"
      by blast
    have g: "0 < self_g * p_dt p" using d by (simp add: self_g_def)
    have "s_vy s1 \<le> real j * (self_g * p_dt p)"
    proof (cases "0 \<le> s_vy s")
      case True
      with up Suc.prems(3) show ?thesis by (simp add: algebra_simps)
    next
      case False
      with dn have "s_vy s1 \<le> - (self_g * p_dt p)" by simp
      moreover have "0 \<le> real j * (self_g * p_dt p)" using g by simp
      ultimately show ?thesis using g by linarith
    qed
    with bx bv obtain n s' where "euler_loop n p s1 = Some (Inr s')"
      using Suc.IH by blast
    with True s1 have "euler_loop (Suc n) p s = Some (Inr s')" by simp
    then show ?thesis by blast
  qed
qed

lemma damped_flight_lands:
  assumes "get_parameters e = Inr p"
    and m: "0 < p_m p" and K: "0 \<le> calculate_drag_force 1 p"
    and V: "p_v0 p \<le> V" and weight: "p_m p * self_g \<le> calculate_drag_force V p"
    and stable: "2 * calculate_drag_force V p * p_dt p \<le> p_m p * V"
  shows "\<exists>n s. simulate n p = Some (Inr s)"
proof -
  from assms(1) have d: "0 < p_dt p" and v0: "0 < p_v0 p" by (rule get_parameters_valid)+
  from v0 V have V0: "0 < V" by simp
  have "\<bar>p_v0 p * cos (radians (p_angle p))\<bar> \<le> p_v0 p * 1"
    unfolding abs_mult using v0 by (intro mult_mono) auto
  with V have bx: "\<bar>s_vx (initial_state p)\<bar> \<le> V"
    by (simp add: initial_state_def Let_def)
  have "\<bar>p_v0 p * sin (radians (p_angle p))\<bar> \<le> p_v0 p * 1"
    unfolding abs_mult using v0 by (intro mult_mono) auto
  with V have by': "\<bar>s_vy (initial_state p)\<bar> \<le> V"
    by (simp add: initial_state_def Let_def)
  have "0 < self_g * p_dt p" using d by (simp add: self_g_def)
  then obtain j where "s_vy (initial_state p) < real j * (self_g * p_dt p)"
    using ex_less_of_nat_mult by blast
  then have "s_vy (initial_state p) \<le> real j * (self_g * p_dt p)" by simp
  with m d K V0 weight stable bx by' show ?thesis
    unfolding simulate_def by (rule damped_rise_lands)
qed

text \<open>The run with the default entries of the form is one of these.\<close>

lemma default_form_accepted: "get_parameters default_form = Inr default_flight"
  by (simp add: get_parameters_def)

lemma default_flight_lands: "\<exists>n s. simulate n default_flight = Some (Inr s)"
  using default_form_accepted
  by (rule damped_flight_lands [where V = 101])
    (simp_all add: calculate_drag_force_def self_g_def)

subsection \<open>The state after a number of passes\<close>

lemma euler_passes_invariant:
  assumes step: "\<And>s s'. I s \<Longrightarrow> 0 \<le> s_y s \<Longrightarrow> euler_step p s = Inr s' \<Longrightarrow> I s'"
    and "I s" and "euler_passes k p s = Inr s'"
  shows "I s'"
  using assms(2,3)
proof (induction k arbitrary: s)
  case 0
  then show ?case by simp
next
  case (Suc k)
  show ?case
  proof (cases "0 \<le> s_y s")
    case False
    with Suc.prems show ?thesis by simp
  next
    case True
    with Suc.prems obtain s1 where s1: "euler_step p s = Inr s1"
      and rest: "euler_passes k p s1 = Inr s'"
      by (auto split: sum.splits)
    from step [OF Suc.prems(1) True s1] have "I s1" .
    from Suc.IH [OF this rest] show ?thesis .
  qed
qed

lemma euler_loop_passes:
  "euler_loop n p s = Some r \<Longrightarrow> euler_passes n p s = r"
proof (induction n arbitrary: s)
  case 0
  then show ?case by (simp split: if_splits)
next
  case (Suc n)
  then show ?case by (auto split: if_splits sum.splits)
qed

lemma first_sample_initial:
  "s_trajectory (initial_state p) \<noteq> [] \<and> hd (s_trajectory (initial_state p)) = (0, 0)"
  by (simp add: initial_state_def Let_def)

lemma passes_keep_maximum:
  assumes "euler_passes k p (initial_state p) = Inr s"
  shows "s_max_height s = Max (snd ` set (s_trajectory s))"
    and "s_trajectory s \<noteq> []" and "hd (s_trajectory s) = (0, 0)"
proof -
  have "height_ok s"
    using height_ok_guarded_step height_ok_initial assms by (rule euler_passes_invariant)
  then show "s_max_height s = Max (snd ` set (s_trajectory s))"
    by (simp add: height_ok_def)
  have "s_trajectory s \<noteq> [] \<and> hd (s_trajectory s) = (0, 0)"
    using first_sample_step first_sample_initial assms by (rule euler_passes_invariant)
  then show "s_trajectory s \<noteq> []" and "hd (s_trajectory s) = (0, 0)" by simp_all
qed

subsection \<open>The two models agree on finite input\<close>

lemma fl_gt_finite [simp]: "fl_gt (Finite a) (Finite b) \<longleftrightarrow> b < a"
  by (auto simp: fl_gt_def fl_lt_def)

lemma fl_lt_finite [simp]: "fl_lt (Finite a) (Finite b) \<longleftrightarrow> a < b"
  by (auto simp: fl_lt_def)

lemma fl_ge_finite [simp]: "fl_ge (Finite a) (Finite b) \<longleftrightarrow> b \<le> a"
  by (simp add: fl_ge_def)

lemma fl_sub_finite [simp]: "fl_sub (Finite a) (Finite b) = Finite (a - b)"
  by (simp add: fl_sub_def)

lemma speed_fl_finite: "speed_fl (Finite vx) (Finite vy) = Inr (Finite (sqrt (vx ^ 2 + vy ^ 2)))"
proof -
  have "\<not> vx ^ 2 + vy ^ 2 < 0" by (simp add: not_less)
  then show ?thesis by (simp add: speed_fl_def)
qed

lemma calculate_drag_force_fl_finite:
  "calculate_drag_force_fl (Finite v) (finite_params p) = Finite (calculate_drag_force v p)"
  by (simp add: calculate_drag_force_fl_def calculate_drag_force_def finite_params_def)

lemma acceleration_fl_finite:
  "acceleration_fl (finite_params p) (Finite vx) (Finite vy) =
     map_sum id finite_point (acceleration p vx vy)"
proof -
  have m: "q_m (finite_params p) = Finite (p_m p)" by (simp add: finite_params_def)
  show ?thesis
    by (simp add: acceleration_fl_def acceleration_def speed_fl_finite
        calculate_drag_force_fl_finite Let_def and_then_def m finite_point_def)
qed

lemma euler_step_fl_finite:
  "euler_step_fl (finite_params p) (finite_state s) = map_sum id finite_state (euler_step p s)"
proof -
  have d: "q_dt (finite_params p) = Finite (p_dt p)" by (simp add: finite_params_def)
  have v: "u_vx (finite_state s) = Finite (s_vx s)" "u_vy (finite_state s) = Finite (s_vy s)"
    by (simp_all add: finite_state_def)
  show ?thesis
  proof (cases "acceleration p (s_vx s) (s_vy s)")
    case (Inl err)
    then show ?thesis
      by (simp add: euler_step_fl_def euler_step_def v acceleration_fl_finite and_then_def)
  next
    case (Inr a)
    obtain ax ay where a: "a = (ax, ay)" by (cases a)
    with Inr show ?thesis
      by (simp add: euler_step_fl_def euler_step_def v d acceleration_fl_finite and_then_def
          finite_point_def finite_state_def Let_def)
  qed
qed

lemma euler_loop_fl_finite:
  "euler_loop_fl n (finite_params p) (finite_state s) =
     map_option (map_sum id finite_state) (euler_loop n p s)"
proof (induction n arbitrary: s)
  case 0
  then show ?case by (simp add: finite_state_def)
next
  case (Suc n)
  have y: "u_y (finite_state s) = Finite (s_y s)" by (simp add: finite_state_def)
  show ?case
  proof (cases "euler_step p s")
    case (Inl err)
    then show ?thesis by (simp add: y euler_step_fl_finite)
  next
    case (Inr s')
    then show ?thesis by (simp add: y euler_step_fl_finite Suc.IH)
  qed
qed

lemma initial_state_fl_finite:
  "initial_state_fl (finite_params p) = Inr (finite_state (initial_state p))"
  by (simp add: initial_state_fl_def initial_state_def fl_radians_def radians_def
      finite_params_def finite_state_def finite_point_def and_then_def Let_def)

lemma make_result_fl_finite:
  "make_result_fl (finite_params p) (finite_state s) = Inr (finite_result (make_result p s))"
proof -
  have "u_y (finite_state s) = Finite (s_y s)" "u_vx (finite_state s) = Finite (s_vx s)"
    "u_vy (finite_state s) = Finite (s_vy s)"
    by (simp_all add: finite_state_def)
  then show ?thesis
    by (simp add: make_result_fl_def make_result_def speed_fl_finite and_then_def
        finite_result_def finite_params_def finite_state_def)
qed

lemma simulate_fl_finite:
  "simulate_fl n (finite_params p) =
     map_option (map_sum id (\<lambda>s. finite_result (make_result p s))) (simulate n p)"
proof (cases "euler_loop n p (initial_state p)")
  case None
  then show ?thesis
    by (simp add: simulate_fl_def simulate_def initial_state_fl_finite euler_loop_fl_finite)
next
  case (Some r)
  then show ?thesis
    by (cases r)
      (simp_all add: simulate_fl_def simulate_def initial_state_fl_finite euler_loop_fl_finite
        make_result_fl_finite)
qed

lemma get_parameters_fl_finite:
  "get_parameters_fl (finite_entries e) = map_sum id finite_params (get_parameters e)"
  by (simp add: get_parameters_fl_def get_parameters_def finite_entries_def finite_params_def
      split: option.splits)

lemma confirm_duplicates_fl_finite:
  "confirm_duplicates_fl (Finite d) (map finite_result rs) ask k = confirm_duplicates d rs ask k"
  by (induction rs arbitrary: k) (simp_all add: finite_result_def)

lemma run_simulation_fl_finite:
  "run_simulation_fl n ask (finite_entries e) (finite_app a) =
     map_option (\<lambda>(out, a'). (out, finite_app a')) (run_simulation n ask e a)"
proof (cases "get_parameters e")
  case (Inl err)
  then show ?thesis
    by (simp add: run_simulation_fl_def run_simulation_def get_parameters_fl_finite)
next
  case (Inr p)
  have d: "q_dt (finite_params p) = Finite (p_dt p)" by (simp add: finite_params_def)
  have r: "results_fl (finite_app a) = map finite_result (results a)"
    by (simp add: finite_app_def)
  from Inr show ?thesis
    by (simp add: run_simulation_fl_def run_simulation_def get_parameters_fl_finite d r
        confirm_duplicates_fl_finite simulate_fl_finite finite_app_def
        split: option.splits sum.splits)
qed

subsection \<open>The run with an infinite speed\<close>

text \<open>
  The text \<^verbatim>\<open>inf\<close> in the speed field passes validation, because \<^verbatim>\<open>inf <= 0\<close> is false.
  Both velocity components are then infinite, the speed and the drag force are infinite,
  and the drag term is \<^verbatim>\<open>-inf / inf\<close>, which is NaN. After the first pass the velocity and
  the position are NaN, and the test \<^verbatim>\<open>y >= 0\<close> is false.
\<close>

lemma infinite_speed_accepted:
  "get_parameters_fl infinite_speed_entries = Inr infinite_speed_params"
  by (simp add: get_parameters_fl_def fl_ge_def)

lemma quarter_turn: "fl_radians (Finite 45) = Finite (pi / 4)"
  by (simp add: fl_radians_def)

lemma infinite_speed_initial:
  "initial_state_fl infinite_speed_params = Inr infinite_speed_start"
  by (simp add: initial_state_fl_def quarter_turn and_then_def cos_45 sin_45 signed_inf_def)

lemma infinite_speed_acceleration:
  "acceleration_fl infinite_speed_params PosInf PosInf = Inr (NaN, NaN)"
  by (simp add: acceleration_fl_def speed_fl_def calculate_drag_force_fl_def and_then_def
      signed_inf_def fl_gt_def fl_lt_def fl_sub_def Let_def)

lemma infinite_speed_step:
  "euler_step_fl infinite_speed_params infinite_speed_start
     = Inr infinite_speed_state"
  by (simp add: euler_step_fl_def infinite_speed_acceleration and_then_def fl_gt_def fl_lt_def
      Let_def)

lemma infinite_speed_loop:
  "euler_loop_fl (Suc n) infinite_speed_params infinite_speed_start
     = Some (Inr infinite_speed_state)"
proof -
  have "euler_loop_fl n infinite_speed_params infinite_speed_state
      = Some (Inr infinite_speed_state)"
    by (cases n) (simp_all add: fl_ge_def)
  then show ?thesis by (simp add: infinite_speed_step)
qed

lemma infinite_speed_reported:
  "make_result_fl infinite_speed_params infinite_speed_state = Inr infinite_speed_outcome"
  by (simp add: make_result_fl_def and_then_def)

lemma infinite_speed_run:
  "simulate_fl (Suc n) infinite_speed_params = Some (Inr infinite_speed_outcome)"
  by (simp only: simulate_fl_def infinite_speed_initial infinite_speed_loop
      infinite_speed_reported sum.case option.case)

subsection \<open>The trajectory and the landing sample\<close>

text \<open>
  In the exact model the loop can only stop on a negative height. The trajectory of a
  completed run then ends in a sample of negative height, every earlier sample has
  height at least zero, and the last sample is the previous position plus step times
  the final velocity.
\<close>

lemma completed_run_lands_below_ground:
  assumes "get_parameters e = Inr p" and "simulate n p = Some (Inr s)"
  shows "trajectory (make_result p s) \<noteq> []
    \<and> snd (last (trajectory (make_result p s))) < 0
    \<and> (\<forall>q \<in> set (butlast (trajectory (make_result p s))). 0 \<le> snd q)
    \<and> (\<exists>s0. 0 \<le> s_y s0 \<and> euler_step p s0 = Inr s
          \<and> trajectory (make_result p s) = s_trajectory s0 @ [(s_x s, s_y s)]
          \<and> last (trajectory (make_result p s)) =
              (s_x s0 + s_vx s * p_dt p, s_y s0 + s_vy s * p_dt p))"
proof -
  from assms(2) have run: "euler_loop n p (initial_state p) = Some (Inr s)"
    by (simp add: simulate_def)
  have ok: "samples_ok s"
    using samples_ok_step samples_ok_initial run by (rule euler_loop_invariant)
  from run have neg: "s_y s < 0" by (rule euler_loop_exit)
  from run obtain s0 where s0: "0 \<le> s_y s0" "euler_step p s0 = Inr s"
    using euler_loop_last_step [of n p "initial_state p" s] by (auto simp: initial_state_height)
  from s0(2) have tr: "s_trajectory s = s_trajectory s0 @ [(s_x s, s_y s)]"
    by (rule euler_step_trajectory)
  from s0(2) have pos: "s_x s = s_x s0 + s_vx s * p_dt p" "s_y s = s_y s0 + s_vy s * p_dt p"
    by (rule euler_step_position)+
  have "last (s_trajectory s) = (s_x s0 + s_vx s * p_dt p, s_y s0 + s_vy s * p_dt p)"
    using ok pos by (simp add: samples_ok_def)
  with ok neg s0 tr show ?thesis
    unfolding samples_ok_def make_result_def by auto
qed

text \<open>
  Claim C2. The claim is that for every parameter set that passes validation the last
  height of the trajectory is negative. With the text \<^verbatim>\<open>inf\<close> in the speed field and the
  other entries at their defaults validation succeeds, the loop stops after one pass on
  the height NaN, and the last sample of the stored trajectory is \<open>(NaN, NaN)\<close>, whose
  height is not less than zero.
\<close>

theorem loop_exits_on_nan_height:
  "get_parameters_fl infinite_speed_entries = Inr infinite_speed_params
   \<and> simulate_fl (Suc n) infinite_speed_params = Some (Inr infinite_speed_outcome)
   \<and> trajectory_fl infinite_speed_outcome = [(Finite 0, Finite 0), (NaN, NaN)]
   \<and> snd (last (trajectory_fl infinite_speed_outcome)) = NaN
   \<and> \<not> fl_lt (snd (last (trajectory_fl infinite_speed_outcome))) (Finite 0)"
  by (simp add: infinite_speed_accepted infinite_speed_run fl_lt_def)

text \<open>
  In the exact model the final speed of a completed run is the Euclidean norm of the
  velocity after the last pass, because the height is then negative.
\<close>

lemma completed_run_final_speed:
  assumes "get_parameters e = Inr p" and "simulate n p = Some (Inr s)"
  shows "final_speed (make_result p s) = sqrt (s_vx s ^ 2 + s_vy s ^ 2)
    \<and> s_y s \<le> 0
    \<and> (\<exists>s0. euler_step p s0 = Inr s
          \<and> last (trajectory (make_result p s)) =
              (s_x s0 + s_vx s * p_dt p, s_y s0 + s_vy s * p_dt p))"
proof -
  from assms(2) have run: "euler_loop n p (initial_state p) = Some (Inr s)"
    by (simp add: simulate_def)
  from run have neg: "s_y s < 0" by (rule euler_loop_exit)
  have ok: "samples_ok s"
    using samples_ok_step samples_ok_initial run by (rule euler_loop_invariant)
  from run obtain s0 where s0: "euler_step p s0 = Inr s"
    using euler_loop_last_step [of n p "initial_state p" s] by (auto simp: initial_state_height)
  from s0 have "s_x s = s_x s0 + s_vx s * p_dt p" "s_y s = s_y s0 + s_vy s * p_dt p"
    by (rule euler_step_position)+
  with ok have "last (trajectory (make_result p s)) =
      (s_x s0 + s_vx s * p_dt p, s_y s0 + s_vy s * p_dt p)"
    by (simp add: samples_ok_def make_result_def)
  with s0 neg show ?thesis by (auto simp: make_result_def)
qed

text \<open>
  Claim C3. The claim is that the final speed is the norm of the final velocity and that
  the branch reporting 0 is never taken. In the run with the text \<^verbatim>\<open>inf\<close> in the speed
  field the loop stops on the height NaN, the test \<^verbatim>\<open>y <= 0\<close> is false, and the final
  speed that is stored is 0, while the norm of the final velocity is NaN.
\<close>

theorem final_speed_zero_branch_taken:
  "get_parameters_fl infinite_speed_entries = Inr infinite_speed_params
   \<and> initial_state_fl infinite_speed_params = Inr infinite_speed_start
   \<and> euler_loop_fl (Suc n) infinite_speed_params infinite_speed_start
       = Some (Inr infinite_speed_state)
   \<and> \<not> fl_le (u_y infinite_speed_state) (Finite 0)
   \<and> speed_fl (u_vx infinite_speed_state) (u_vy infinite_speed_state) = Inr NaN
   \<and> make_result_fl infinite_speed_params infinite_speed_state = Inr infinite_speed_outcome
   \<and> final_speed_fl infinite_speed_outcome = Finite 0"
  by (simp add: infinite_speed_accepted infinite_speed_initial infinite_speed_loop
      infinite_speed_reported speed_fl_def del: euler_loop_fl.simps)

text \<open>
  Claim C4. For every parameter set that passes validation, the running maximum equals
  the maximum of the heights of all samples taken so far, after any number of passes
  and whether or not the loop ever stops, and the first sample is the initial position
  \<open>(0, 0)\<close>. So the maximum height of every completed run is the maximum over its whole
  trajectory. A run is completed, and reports this maximum, whenever the mass is not
  zero and there is no drag, and whenever the mass is positive, the drag is not
  negative and the step keeps the drag update stable.
\<close>

theorem max_height_is_maximum:
  assumes "get_parameters e = Inr p"
  shows "(euler_passes k p (initial_state p) = Inr s \<longrightarrow>
            s_max_height s = Max (snd ` set (s_trajectory s))
            \<and> hd (s_trajectory s) = (0, 0))
    \<and> (simulate n p = Some (Inr s) \<longrightarrow>
            max_height (make_result p s) = Max (snd ` set (trajectory (make_result p s)))
            \<and> hd (trajectory (make_result p s)) = (0, 0)
            \<and> (0, 0) \<in> set (trajectory (make_result p s)))
    \<and> ((p_m p \<noteq> 0 \<and> p_rho p * p_C p * p_S p = 0)
        \<or> (0 < p_m p \<and> 0 \<le> calculate_drag_force 1 p \<and> p_v0 p \<le> V
            \<and> p_m p * self_g \<le> calculate_drag_force V p
            \<and> 2 * calculate_drag_force V p * p_dt p \<le> p_m p * V) \<longrightarrow>
          (\<exists>m r. simulate m p = Some (Inr r)
            \<and> max_height (make_result p r)
                = Max (snd ` set (trajectory (make_result p r)))))"
proof (intro conjI impI)
  assume "euler_passes k p (initial_state p) = Inr s"
  then show "s_max_height s = Max (snd ` set (s_trajectory s))"
    and "hd (s_trajectory s) = (0, 0)"
    by (rule passes_keep_maximum)+
next
  assume "simulate n p = Some (Inr s)"
  then have "euler_passes n p (initial_state p) = Inr s"
    unfolding simulate_def by (rule euler_loop_passes)
  note k = passes_keep_maximum [OF this]
  from k(1) show "max_height (make_result p s) = Max (snd ` set (trajectory (make_result p s)))"
    by (simp add: make_result_def)
  from k(3) show "hd (trajectory (make_result p s)) = (0, 0)"
    by (simp add: make_result_def)
  from k(2,3) show "(0, 0) \<in> set (trajectory (make_result p s))"
    by (auto simp: make_result_def dest: hd_in_set)
next
  assume cls: "(p_m p \<noteq> 0 \<and> p_rho p * p_C p * p_S p = 0)
        \<or> (0 < p_m p \<and> 0 \<le> calculate_drag_force 1 p \<and> p_v0 p \<le> V
            \<and> p_m p * self_g \<le> calculate_drag_force V p
            \<and> 2 * calculate_drag_force V p * p_dt p \<le> p_m p * V)"
  have "\<exists>m r. simulate m p = Some (Inr r)"
    using cls
  proof
    assume "p_m p \<noteq> 0 \<and> p_rho p * p_C p * p_S p = 0"
    with assms show ?thesis by (intro drag_free_flight_lands) auto
  next
    assume "0 < p_m p \<and> 0 \<le> calculate_drag_force 1 p \<and> p_v0 p \<le> V
            \<and> p_m p * self_g \<le> calculate_drag_force V p
            \<and> 2 * calculate_drag_force V p * p_dt p \<le> p_m p * V"
    with assms show ?thesis by (intro damped_flight_lands [where V = V]) auto
  qed
  then obtain m r where run: "simulate m p = Some (Inr r)" by blast
  then have "euler_passes m p (initial_state p) = Inr r"
    unfolding simulate_def by (rule euler_loop_passes)
  from passes_keep_maximum(1) [OF this]
  have "max_height (make_result p r) = Max (snd ` set (trajectory (make_result p r)))"
    by (simp add: make_result_def)
  with run show "\<exists>m r. simulate m p = Some (Inr r)
      \<and> max_height (make_result p r) = Max (snd ` set (trajectory (make_result p r)))"
    by blast
qed

theorem max_height_is_maximum_witness:
  "get_parameters flight_entries = Inr flight_params
   \<and> euler_passes 1 flight_params (initial_state flight_params) = Inr flight_apex
   \<and> s_max_height flight_apex = 19 / 10000
   \<and> Max (snd ` set (s_trajectory flight_apex)) = 19 / 10000
   \<and> simulate 2 flight_params = Some (Inr flight_landing)
   \<and> max_height (make_result flight_params flight_landing) = 19 / 10000
   \<and> Max (snd ` set (trajectory (make_result flight_params flight_landing))) = 19 / 10000
   \<and> get_parameters default_form = Inr default_flight
   \<and> 0 < p_m default_flight \<and> 0 \<le> calculate_drag_force 1 default_flight
   \<and> p_v0 default_flight \<le> 101
   \<and> p_m default_flight * self_g \<le> calculate_drag_force 101 default_flight
   \<and> 2 * calculate_drag_force 101 default_flight * p_dt default_flight
        \<le> p_m default_flight * 101
   \<and> (\<exists>m r. simulate m default_flight = Some (Inr r)
        \<and> max_height (make_result default_flight r)
            = Max (snd ` set (trajectory (make_result default_flight r))))"
proof -
  have pass: "euler_passes 1 flight_params (initial_state flight_params) = Inr flight_apex"
    by (simp add: flight_first_step initial_state_height)
  have cls: "0 < p_m default_flight \<and> 0 \<le> calculate_drag_force 1 default_flight
      \<and> p_v0 default_flight \<le> 101
      \<and> p_m default_flight * self_g \<le> calculate_drag_force 101 default_flight
      \<and> 2 * calculate_drag_force 101 default_flight * p_dt default_flight
            \<le> p_m default_flight * 101"
    by (simp add: calculate_drag_force_def self_g_def)
  from max_height_is_maximum [OF flight_accepted, of 1 flight_apex]
  have one: "s_max_height flight_apex = Max (snd ` set (s_trajectory flight_apex))"
    using pass by blast
  from max_height_is_maximum [OF flight_accepted, of _ flight_landing 2]
  have two: "max_height (make_result flight_params flight_landing)
      = Max (snd ` set (trajectory (make_result flight_params flight_landing)))"
    using flight_run by blast
  from max_height_is_maximum [OF default_form_accepted, of _ _ _ 101] cls
  have three: "\<exists>m r. simulate m default_flight = Some (Inr r)
        \<and> max_height (make_result default_flight r)
            = Max (snd ` set (trajectory (make_result default_flight r)))"
    by blast
  have v1: "s_max_height flight_apex = 19 / 10000" by simp
  have v2: "max_height (make_result flight_params flight_landing) = 19 / 10000"
    by (simp add: make_result_def)
  from one v1 have m1: "Max (snd ` set (s_trajectory flight_apex)) = 19 / 10000" by simp
  from two v2
  have m2: "Max (snd ` set (trajectory (make_result flight_params flight_landing))) = 19 / 10000"
    by simp
  from flight_accepted pass v1 m1 flight_run v2 m2 default_form_accepted cls three
  show ?thesis by (intro conjI) simp_all
qed

subsection \<open>One pass of the loop body\<close>

text \<open>
  Claim C6. Every pass of the loop body is a semi-implicit Euler step: the velocity
  advances by acceleration times step, the position then advances by the new velocity
  times step (which differs from the old velocity times step by acceleration times the
  square of the step), and the elapsed time advances by the step.
\<close>

theorem semi_implicit_update:
  assumes "euler_step p s = Inr s'"
  shows "\<exists>ax ay. acceleration p (s_vx s) (s_vy s) = Inr (ax, ay)
    \<and> s_vx s' = s_vx s + ax * p_dt p
    \<and> s_vy s' = s_vy s + ay * p_dt p
    \<and> s_x s' = s_x s + s_vx s' * p_dt p
    \<and> s_y s' = s_y s + s_vy s' * p_dt p
    \<and> s_x s' = s_x s + s_vx s * p_dt p + ax * p_dt p * p_dt p
    \<and> s_y s' = s_y s + s_vy s * p_dt p + ay * p_dt p * p_dt p
    \<and> s_t s' = s_t s + p_dt p"
proof -
  from euler_step_velocity [OF assms] obtain ax ay
    where a: "acceleration p (s_vx s) (s_vy s) = Inr (ax, ay)"
      and v: "s_vx s' = s_vx s + ax * p_dt p" "s_vy s' = s_vy s + ay * p_dt p"
    by blast
  note q = euler_step_position [OF assms]
  have "s_x s' = s_x s + s_vx s * p_dt p + ax * p_dt p * p_dt p"
    using q(1) v(1) by (simp add: algebra_simps)
  moreover have "s_y s' = s_y s + s_vy s * p_dt p + ay * p_dt p * p_dt p"
    using q(2) v(2) by (simp add: algebra_simps)
  ultimately show ?thesis
    using a v q euler_step_clock(1) [OF assms] by blast
qed

theorem semi_implicit_update_witness:
  "euler_step example_params (initial_state example_params) = Inr example_landing
   \<and> acceleration example_params (s_vx (initial_state example_params))
        (s_vy (initial_state example_params)) = Inr (- sqrt 3, - (1081 / 100))
   \<and> s_x example_landing =
        s_x (initial_state example_params) + s_vx example_landing * p_dt example_params
   \<and> s_x example_landing \<noteq>
        s_x (initial_state example_params)
          + s_vx (initial_state example_params) * p_dt example_params
   \<and> s_t example_landing = s_t (initial_state example_params) + p_dt example_params"
proof -
  have "s_vx (initial_state example_params) = sqrt 3"
    and "s_vy (initial_state example_params) = 1"
    and "s_x (initial_state example_params) = 0"
    and "s_t (initial_state example_params) = 0"
    by (simp_all add: example_initial)
  with semi_implicit_update [OF example_step] example_step example_acceleration
  show ?thesis by simp
qed

subsection \<open>A landing on the first step\<close>

text \<open>
  Claim C8. For every parameter set that passes validation and whose first integration
  step already gives a negative height, the loop makes exactly one pass: no bound of
  zero passes suffices, every bound of at least one pass yields the state after that
  step, and the trajectory has exactly two samples, the initial \<open>(0, 0)\<close> and the
  position after the step.
\<close>

theorem first_step_landing:
  assumes "get_parameters e = Inr p"
    and "euler_step p (initial_state p) = Inr s1" and "s_y s1 < 0"
  shows "simulate 0 p = None
    \<and> simulate (Suc n) p = Some (Inr s1)
    \<and> trajectory (make_result p s1) = [(0, 0), (s_x s1, s_y s1)]
    \<and> length (trajectory (make_result p s1)) = 2"
proof -
  have "simulate 0 p = None"
    by (simp add: simulate_def initial_state_height)
  moreover from assms(3) have "euler_loop n p s1 = Some (Inr s1)"
    by (cases n) simp_all
  with assms(2) have "simulate (Suc n) p = Some (Inr s1)"
    by (simp add: simulate_def initial_state_height)
  moreover have "s_trajectory s1 = [(0, 0), (s_x s1, s_y s1)]"
    using euler_step_trajectory [OF assms(2)] by (simp add: initial_state_def Let_def)
  ultimately show ?thesis by (simp add: make_result_def)
qed

theorem first_step_landing_witness:
  "get_parameters example_entries = Inr example_params
   \<and> euler_step example_params (initial_state example_params) = Inr example_landing
   \<and> s_y example_landing < 0
   \<and> simulate 0 example_params = None
   \<and> simulate 1 example_params = Some (Inr example_landing)
   \<and> simulate 7 example_params = Some (Inr example_landing)
   \<and> trajectory (make_result example_params example_landing) = [(0, 0), (0, - (981 / 100))]"
proof -
  have neg: "s_y example_landing < 0" by simp
  from first_step_landing [OF example_accepted example_step neg, of 0]
    first_step_landing [OF example_accepted example_step neg, of 6]
  show ?thesis
    by (simp add: example_accepted example_step)
qed

subsection \<open>The results table\<close>

text \<open>
  Claim C9. For every result stored by the application, the flight time shown in its row
  of the table is the number of samples of its trajectory times its step. The result
  comes from a completed run, and the value shown is the elapsed time that the loop of
  that run accumulated plus one step.
\<close>

theorem table_flight_time:
  assumes "reachable a" and "i < length (results a)"
  shows "row_flight_time (update_table a ! i) =
      real (length (trajectory (results a ! i))) * dt (results a ! i)
    \<and> (\<exists>n p s. simulate n p = Some (Inr s) \<and> results a ! i = make_result p s
          \<and> row_flight_time (update_table a ! i) = s_t s + p_dt p)"
proof -
  from assms(2) have row: "row_flight_time (update_table a ! i) =
      real (length (trajectory (results a ! i))) * dt (results a ! i)"
    by (simp add: update_table_def table_row_of_def Let_def)
  from assms(2) have "results a ! i \<in> set (results a)" by simp
  with assms(1) obtain n p s where run: "simulate n p = Some (Inr s)"
    and r: "results a ! i = make_result p s"
    using stored_results_come_from_runs by blast
  from simulate_clock [OF run] r row
  have "row_flight_time (update_table a ! i) = s_t s + p_dt p"
    by (simp add: make_result_def)
  with row run r show ?thesis by blast
qed

theorem table_flight_time_witness:
  "reachable \<lparr>results = [make_result flight_params flight_landing]\<rparr>
   \<and> (0::nat) < length (results \<lparr>results = [make_result flight_params flight_landing]\<rparr>)
   \<and> row_flight_time
        (update_table \<lparr>results = [make_result flight_params flight_landing]\<rparr> ! 0) = 3 / 10
   \<and> real (length (trajectory (make_result flight_params flight_landing)))
        * dt (make_result flight_params flight_landing) = 3 / 10
   \<and> s_t flight_landing + p_dt flight_params = 3 / 10"
proof -
  have len: "(0::nat) < length (results \<lparr>results = [make_result flight_params flight_landing]\<rparr>)"
    by simp
  from table_flight_time [OF flight_reachable len] flight_reachable show ?thesis
    by (simp add: make_result_def)
qed

subsection \<open>Parameter acquisition and the run button\<close>

lemma angle_outside_interval:
  assumes "b \<noteq> NaN"
  shows "fl_le b (Finite 0) \<or> fl_ge b (Finite 90)
    \<longleftrightarrow> \<not> (fl_lt (Finite 0) b \<and> fl_lt b (Finite 90))"
  using assms by (cases b) (auto simp: fl_ge_def fl_lt_def)

lemma get_parameters_fl_rejects_iff:
  "(\<exists>err. get_parameters_fl e = Inl err) \<longleftrightarrow>
     w_v0 e = None \<or> w_angle e = None \<or> w_m e = None \<or> w_rho e = None
     \<or> w_C e = None \<or> w_S e = None \<or> w_dt e = None
     \<or> (\<exists>d. w_dt e = Some d \<and> fl_le d (Finite 0))
     \<or> (\<exists>v. w_v0 e = Some v \<and> fl_le v (Finite 0))
     \<or> (\<exists>b. w_angle e = Some b \<and> (fl_le b (Finite 0) \<or> fl_ge b (Finite 90)))"
  by (auto simp: get_parameters_fl_def split: option.splits)

lemma get_parameters_fl_fields:
  assumes "get_parameters_fl e = Inr p"
  shows "w_v0 e = Some (q_v0 p)" "w_angle e = Some (q_angle p)" "w_m e = Some (q_m p)"
    "w_rho e = Some (q_rho p)" "w_C e = Some (q_C p)" "w_S e = Some (q_S p)"
    "w_dt e = Some (q_dt p)"
  using assms
  by (auto simp: get_parameters_fl_def split: option.splits if_splits)

lemma default_accepted: "get_parameters_fl default_entries = Inr default_params"
  by (simp add: get_parameters_fl_def fl_ge_def)

lemma zero_step_rejected: "get_parameters_fl zero_step_entries = Inl StepNotPositive"
  by (simp add: get_parameters_fl_def)

lemma nan_angle_accepted: "get_parameters_fl nan_angle_entries = Inr nan_angle_params"
  by (simp add: get_parameters_fl_def fl_ge_def)

lemma repeated_step_declined:
  "\<not> confirm_duplicates_fl (q_dt default_params) (results_fl \<lparr>results_fl = [earlier_result]\<rparr>)
       always_no 0"
  by (simp add: always_no_def)

lemma example_accepted_fl:
  "get_parameters_fl (finite_entries example_entries) = Inr (finite_params example_params)"
  by (simp add: get_parameters_fl_finite example_accepted)

lemma example_run_fl:
  "simulate_fl (Suc 0) (finite_params example_params)
     = Some (Inr (finite_result (make_result example_params example_landing)))"
  by (simp add: simulate_fl_finite example_run)

text \<open>
  Claim C7, amended. When the angle field does not hold NaN, parameter acquisition fails
  if and only if one of the seven fields does not parse, or the step is at most zero, or
  the initial speed is at most zero, or the angle is not strictly between 0 and 90
  degrees. When it fails the error is shown and the handler returns with the stored
  results unchanged. When it succeeds the parameters are the parsed values of the
  fields and the handler goes on to the check for a repeated step: if the user declines
  a confirmation no simulation runs and the stored results are unchanged, otherwise the
  outcome of the handler is the outcome of the simulation.
\<close>

theorem parameter_acquisition:
  "(w_angle e \<noteq> Some NaN \<longrightarrow>
      ((\<exists>err. get_parameters_fl e = Inl err) \<longleftrightarrow>
         w_v0 e = None \<or> w_angle e = None \<or> w_m e = None \<or> w_rho e = None
         \<or> w_C e = None \<or> w_S e = None \<or> w_dt e = None
         \<or> (\<exists>d. w_dt e = Some d \<and> fl_le d (Finite 0))
         \<or> (\<exists>v. w_v0 e = Some v \<and> fl_le v (Finite 0))
         \<or> (\<exists>b. w_angle e = Some b \<and> \<not> (fl_lt (Finite 0) b \<and> fl_lt b (Finite 90)))))
   \<and> (\<forall>err. get_parameters_fl e = Inl err \<longrightarrow>
         run_simulation_fl n ask e a = Some (Rejected err, a))
   \<and> (\<forall>p. get_parameters_fl e = Inr p \<longrightarrow>
         w_v0 e = Some (q_v0 p) \<and> w_angle e = Some (q_angle p) \<and> w_m e = Some (q_m p)
         \<and> w_rho e = Some (q_rho p) \<and> w_C e = Some (q_C p) \<and> w_S e = Some (q_S p)
         \<and> w_dt e = Some (q_dt p)
         \<and> (\<not> confirm_duplicates_fl (q_dt p) (results_fl a) ask 0 \<longrightarrow>
              run_simulation_fl n ask e a = Some (Declined, a))
         \<and> (confirm_duplicates_fl (q_dt p) (results_fl a) ask 0 \<longrightarrow>
              run_simulation_fl n ask e a =
                (case simulate_fl n p of
                   None \<Rightarrow> None
                 | Some (Inl err) \<Rightarrow> Some (Crashed err, a)
                 | Some (Inr r) \<Rightarrow> Some (Stored, a\<lparr>results_fl := results_fl a @ [r]\<rparr>))))"
proof (intro conjI allI impI)
  assume number: "w_angle e \<noteq> Some NaN"
  have "(\<exists>b. w_angle e = Some b \<and> (fl_le b (Finite 0) \<or> fl_ge b (Finite 90)))
    \<longleftrightarrow> (\<exists>b. w_angle e = Some b \<and> \<not> (fl_lt (Finite 0) b \<and> fl_lt b (Finite 90)))"
    using number angle_outside_interval by (cases "w_angle e") auto
  then show "(\<exists>err. get_parameters_fl e = Inl err) \<longleftrightarrow>
       w_v0 e = None \<or> w_angle e = None \<or> w_m e = None \<or> w_rho e = None
       \<or> w_C e = None \<or> w_S e = None \<or> w_dt e = None
       \<or> (\<exists>d. w_dt e = Some d \<and> fl_le d (Finite 0))
       \<or> (\<exists>v. w_v0 e = Some v \<and> fl_le v (Finite 0))
       \<or> (\<exists>b. w_angle e = Some b \<and> \<not> (fl_lt (Finite 0) b \<and> fl_lt b (Finite 90)))"
    by (simp only: get_parameters_fl_rejects_iff)
next
  fix err assume "get_parameters_fl e = Inl err"
  then show "run_simulation_fl n ask e a = Some (Rejected err, a)"
    by (simp add: run_simulation_fl_def)
next
  fix p assume p: "get_parameters_fl e = Inr p"
  note f = get_parameters_fl_fields [OF p]
  show "w_v0 e = Some (q_v0 p)" by (rule f)
  show "w_angle e = Some (q_angle p)" by (rule f)
  show "w_m e = Some (q_m p)" by (rule f)
  show "w_rho e = Some (q_rho p)" by (rule f)
  show "w_C e = Some (q_C p)" by (rule f)
  show "w_S e = Some (q_S p)" by (rule f)
  show "w_dt e = Some (q_dt p)" by (rule f)
  {
    assume "\<not> confirm_duplicates_fl (q_dt p) (results_fl a) ask 0"
    with p show "run_simulation_fl n ask e a = Some (Declined, a)"
      by (simp add: run_simulation_fl_def)
  }
  {
    assume "confirm_duplicates_fl (q_dt p) (results_fl a) ask 0"
    with p show "run_simulation_fl n ask e a =
        (case simulate_fl n p of
           None \<Rightarrow> None
         | Some (Inl err) \<Rightarrow> Some (Crashed err, a)
         | Some (Inr r) \<Rightarrow> Some (Stored, a\<lparr>results_fl := results_fl a @ [r]\<rparr>))"
      by (simp add: run_simulation_fl_def)
  }
qed

theorem parameter_acquisition_witness:
  "w_angle zero_step_entries \<noteq> Some NaN
   \<and> get_parameters_fl zero_step_entries = Inl StepNotPositive
   \<and> run_simulation_fl (Suc 0) always_yes zero_step_entries \<lparr>results_fl = []\<rparr>
        = Some (Rejected StepNotPositive, \<lparr>results_fl = []\<rparr>)
   \<and> get_parameters_fl default_entries = Inr default_params
   \<and> \<not> confirm_duplicates_fl (q_dt default_params)
          (results_fl \<lparr>results_fl = [earlier_result]\<rparr>) always_no 0
   \<and> run_simulation_fl (Suc 0) always_no default_entries \<lparr>results_fl = [earlier_result]\<rparr>
        = Some (Declined, \<lparr>results_fl = [earlier_result]\<rparr>)
   \<and> get_parameters_fl (finite_entries example_entries) = Inr (finite_params example_params)
   \<and> confirm_duplicates_fl (q_dt (finite_params example_params))
        (results_fl \<lparr>results_fl = []\<rparr>) always_yes 0
   \<and> run_simulation_fl (Suc 0) always_yes (finite_entries example_entries) \<lparr>results_fl = []\<rparr>
        = Some (Stored,
            \<lparr>results_fl = [finite_result (make_result example_params example_landing)]\<rparr>)"
proof -
  have number: "w_angle zero_step_entries \<noteq> Some NaN" by simp
  have free: "confirm_duplicates_fl (q_dt (finite_params example_params))
        (results_fl \<lparr>results_fl = []\<rparr>) always_yes 0"
    by simp
  from parameter_acquisition [of zero_step_entries "Suc 0" always_yes "\<lparr>results_fl = []\<rparr>"]
    zero_step_rejected
  have one: "run_simulation_fl (Suc 0) always_yes zero_step_entries \<lparr>results_fl = []\<rparr>
        = Some (Rejected StepNotPositive, \<lparr>results_fl = []\<rparr>)"
    by blast
  from parameter_acquisition
    [of default_entries "Suc 0" always_no "\<lparr>results_fl = [earlier_result]\<rparr>"]
    default_accepted repeated_step_declined
  have two: "run_simulation_fl (Suc 0) always_no default_entries \<lparr>results_fl = [earlier_result]\<rparr>
        = Some (Declined, \<lparr>results_fl = [earlier_result]\<rparr>)"
    by blast
  from parameter_acquisition
    [of "finite_entries example_entries" "Suc 0" always_yes "\<lparr>results_fl = []\<rparr>"]
    example_accepted_fl free
  have "run_simulation_fl (Suc 0) always_yes (finite_entries example_entries) \<lparr>results_fl = []\<rparr>
      = (case simulate_fl (Suc 0) (finite_params example_params) of
           None \<Rightarrow> None
         | Some (Inl err) \<Rightarrow> Some (Crashed err, \<lparr>results_fl = []\<rparr>)
         | Some (Inr r) \<Rightarrow>
             Some (Stored, \<lparr>results_fl = []\<rparr>
               \<lparr>results_fl := results_fl \<lparr>results_fl = []\<rparr> @ [r]\<rparr>))"
    by blast
  then have three:
    "run_simulation_fl (Suc 0) always_yes (finite_entries example_entries) \<lparr>results_fl = []\<rparr>
      = Some (Stored,
          \<lparr>results_fl = [finite_result (make_result example_params example_landing)]\<rparr>)"
    by (simp add: example_run_fl)
  from number zero_step_rejected one default_accepted repeated_step_declined two
    example_accepted_fl free three
  show ?thesis by (intro conjI)
qed

text \<open>
  The claim as stated fails in two ways. The text \<^verbatim>\<open>nan\<close> in the angle field is accepted,
  although NaN is not strictly between 0 and 90. And with the default entries, an
  earlier result with the same step and a user who declines the confirmation, the
  parameters are acquired but no simulation runs.
\<close>

theorem acquisition_without_simulation:
  "get_parameters_fl nan_angle_entries = Inr nan_angle_params
   \<and> \<not> (fl_lt (Finite 0) NaN \<and> fl_lt NaN (Finite 90))
   \<and> get_parameters_fl default_entries = Inr default_params
   \<and> run_simulation_fl (Suc 0) always_no default_entries \<lparr>results_fl = [earlier_result]\<rparr>
        = Some (Declined, \<lparr>results_fl = [earlier_result]\<rparr>)"
  by (simp add: nan_angle_accepted default_accepted run_simulation_fl_def always_no_def
      fl_lt_def)

subsection \<open>Zero mass\<close>

text \<open>
  Claim C10. Validation does not constrain mass, air density, drag coefficient or area:
  the default speed, angle and step are accepted with any values of these four. With
  mass zero the initial speed is positive, the divisor mass times speed is zero, the
  first pass of the loop raises a division error and the handler ends with that error
  and without a new result.
\<close>

theorem zero_mass_not_validated:
  "get_parameters
      \<lparr>e_v0 = Some 100, e_angle = Some 45, e_m = Some mass, e_rho = Some density,
       e_C = Some coefficient, e_S = Some area, e_dt = Some (1 / 100)\<rparr>
     = Inr \<lparr>p_v0 = 100, p_angle = 45, p_m = mass, p_rho = density,
            p_C = coefficient, p_S = area, p_dt = 1 / 100\<rparr>
   \<and> 0 < sqrt (s_vx (initial_state massless_params) ^ 2
               + s_vy (initial_state massless_params) ^ 2)
   \<and> p_m massless_params * sqrt (s_vx (initial_state massless_params) ^ 2
               + s_vy (initial_state massless_params) ^ 2) = 0
   \<and> simulate (Suc n) massless_params = Some (Inl ZeroDivisionError)
   \<and> run_simulation (Suc n) ask massless_entries initial_app
       = Some (Crashed ZeroDivisionError, initial_app)"
proof -
  have "sqrt (s_vx (initial_state massless_params) ^ 2
               + s_vy (initial_state massless_params) ^ 2) = 100"
    by (simp only: initial_state_speed) simp
  moreover have "simulate (Suc n) massless_params = Some (Inl ZeroDivisionError)"
    using massless_accepted by (rule zero_mass_raises) simp
  moreover from this have "run_simulation (Suc n) ask massless_entries initial_app
       = Some (Crashed ZeroDivisionError, initial_app)"
    by (simp add: run_simulation_def massless_accepted initial_app_def)
  ultimately show ?thesis by (simp add: get_parameters_def)
qed

text \<open>
  Claim C1. The simulation is not total on validated input: the default entries with
  mass zero pass validation, and for every bound on the number of passes the loop either
  has not finished or has raised the division error; it never returns a final state.
\<close>

theorem core_raises_at_zero_mass:
  "get_parameters massless_entries = Inr massless_params
   \<and> simulate 0 massless_params = None
   \<and> simulate (Suc n) massless_params = Some (Inl ZeroDivisionError)
   \<and> simulate k massless_params \<noteq> Some (Inr s)"
proof -
  have raises: "simulate (Suc n) massless_params = Some (Inl ZeroDivisionError)" for n
    using massless_accepted by (rule zero_mass_raises) simp
  have none: "simulate 0 massless_params = None"
    by (simp add: simulate_def initial_state_height)
  have "simulate k massless_params \<noteq> Some (Inr s)"
    using raises none by (cases k) simp_all
  with raises none massless_accepted show ?thesis by simp
qed

subsection \<open>The guard on the speed\<close>

text \<open>
  With a speed of exactly zero nothing is divided and the acceleration is \<open>(0, - g)\<close>, in
  the model with special values as in the exact model.
\<close>

lemma acceleration_fl_zero_speed:
  assumes "speed_fl vx vy = Inr (Finite 0)"
  shows "acceleration_fl p vx vy = Inr (Finite 0, Finite (- self_g))"
  using assms by (simp add: acceleration_fl_def and_then_def fl_gt_def fl_lt_def)

text \<open>
  Claim C5. The claim is that a positive speed makes the drag term well defined. The
  divisor is mass times speed: with mass zero it is zero although the speed is
  positive, and the division raises. This happens with velocity \<open>(3, 4)\<close>, where the speed
  is 5, and in the first pass of the run with the default entries and mass zero, where
  the speed is 100.
\<close>

theorem drag_term_raises_at_zero_mass:
  "0 < sqrt (3 ^ 2 + 4 ^ 2 :: real)
   \<and> acceleration massless_params 3 4 = Inl ZeroDivisionError
   \<and> get_parameters massless_entries = Inr massless_params
   \<and> sqrt (s_vx (initial_state massless_params) ^ 2
            + s_vy (initial_state massless_params) ^ 2) = 100
   \<and> acceleration massless_params (s_vx (initial_state massless_params))
        (s_vy (initial_state massless_params)) = Inl ZeroDivisionError"
proof -
  have five: "sqrt (3 ^ 2 + 4 ^ 2 :: real) = 5"
    by (rule real_sqrt_unique) simp_all
  then have "acceleration massless_params 3 4 = Inl ZeroDivisionError"
    by (simp add: acceleration_def Let_def)
  moreover have speed: "sqrt (s_vx (initial_state massless_params) ^ 2
            + s_vy (initial_state massless_params) ^ 2) = 100"
    by (simp only: initial_state_speed) simp
  moreover have "acceleration massless_params (s_vx (initial_state massless_params))
        (s_vy (initial_state massless_params)) = Inl ZeroDivisionError"
    by (rule acceleration_zero_mass) (simp_all only: speed, simp_all)
  ultimately show ?thesis using five massless_accepted by simp
qed

end
